theory Spec2Isabelle
  imports
    Complex_Main
    "HOL-Library.Multiset"
    "HOL-Library.Char_ord"
    "HOL-Library.List_Lexorder"
    "HOL-Library.Product_Lexorder"
begin

section \<open>Conventions of the embedding\<close>

text \<open>
  The engine is Python over pandas tables. A table is a list of rows, a row is a record
  with one field per column, and a cell that pandas holds as NaN, NaT or None is
  \<open>None\<close> of an option type. Python floats are read as exact reals: the statements below
  are about which rows enter which sum, count or comparison, not about rounding.
  A date is the number of days since some Monday, so that the weekday of \<open>d\<close> is
  \<open>d mod 7\<close> and Saturday and Sunday are the residues 5 and 6.
\<close>

type_synonym date = int

datatype py_error = IndexError | ZeroDivisionError | TypeError

definition is_bday :: "date \<Rightarrow> bool" where
  "is_bday d = (d mod 7 < 5)"

text \<open>\<open>pd.date_range(start, end, freq="B")\<close>: the business days from start to end, in order.\<close>

definition bdate_range :: "date \<Rightarrow> date \<Rightarrow> date list" where
  "bdate_range start end = filter is_bday [start..end]"

section \<open>Sector investability gate (reporting/sector\_filters.py)\<close>

text \<open>One row of the sector metrics table, with the columns the gate reads.\<close>

record sector_metrics =
  sec_group :: string
  mean :: real
  sec_win_rate :: real
  volatility :: real
  sharpe :: real
  sortino :: real
  sec_max_dd :: real
  stability :: real

text \<open>
  \<open>SECTOR_STRICT_PARAMS\<close> is read from config.yaml, which is not part of the sources:
  the six floors are a parameter of the gate.
\<close>

record strict_params =
  min_mean :: real
  min_win_rate :: real
  min_sharpe :: real
  min_sortino :: real
  min_stability :: real
  min_max_dd :: real

text \<open>
  \<open>_evaluate_sector_weighted_strict\<close>. The reason lines are f-strings; \<open>fmt spec x\<close>
  stands for Python's \<open>format(x, spec)\<close>.
\<close>

definition evaluate_sector_weighted_strict ::
  "(string \<Rightarrow> real \<Rightarrow> string) \<Rightarrow> strict_params \<Rightarrow> sector_metrics \<Rightarrow> bool \<times> string list" where
  "evaluate_sector_weighted_strict fmt p row =
    (let (ok, reasons) = (True, []);
         (ok, reasons) =
           (if mean row < min_mean p
            then (False, reasons @ [''- Sector mean return '' @ fmt ''.4%'' (mean row) @ '' is not positive.''])
            else (ok, reasons));
         (ok, reasons) =
           (if sec_win_rate row < min_win_rate p
            then (False, reasons @ [''- Sector win rate '' @ fmt ''.2%'' (sec_win_rate row) @ '' is below 50%.''])
            else (ok, reasons));
         (ok, reasons) =
           (if sharpe row < min_sharpe p
            then (False, reasons @ [''- Sector Sharpe '' @ fmt ''.4f'' (sharpe row) @ '' is too weak.''])
            else (ok, reasons));
         (ok, reasons) =
           (if sortino row < min_sortino p
            then (False, reasons @ [''- Sector Sortino '' @ fmt ''.4f'' (sortino row) @ '' is too weak.''])
            else (ok, reasons));
         (ok, reasons) =
           (if stability row < min_stability p
            then (False, reasons @ [''- Sector stability score '' @ fmt ''.4f'' (stability row) @ '' is too weak.''])
            else (ok, reasons));
         (ok, reasons) =
           (if sec_max_dd row < min_max_dd p
            then (False, reasons @ [''- Sector max drawdown '' @ fmt ''.2%'' (sec_max_dd row) @ '' is too deep.''])
            else (ok, reasons))
     in (ok, reasons))"

text \<open>
  The loop at the end of \<open>compute_investable_sectors\<close>: every metrics row gets its flag
  and its reasons (the columns \<open>is_investable\<close> and \<open>investable_reasons\<close>).
\<close>

definition flag_sectors ::
  "(string \<Rightarrow> real \<Rightarrow> string) \<Rightarrow> strict_params \<Rightarrow> sector_metrics list
    \<Rightarrow> (sector_metrics \<times> bool \<times> string list) list" where
  "flag_sectors fmt p metrics = map (\<lambda>row. (row, evaluate_sector_weighted_strict fmt p row)) metrics"

definition investable_sectors ::
  "(string \<Rightarrow> real \<Rightarrow> string) \<Rightarrow> strict_params \<Rightarrow> sector_metrics list \<Rightarrow> string set" where
  "investable_sectors fmt p metrics =
     set (map (\<lambda>(row, ok, reasons). sec_group row)
            (filter (\<lambda>(row, ok, reasons). ok) (flag_sectors fmt p metrics)))"

text \<open>The criteria a row fails, as the gate tests them, in the gate's order.\<close>

definition failed_criteria :: "strict_params \<Rightarrow> sector_metrics \<Rightarrow> bool list" where
  "failed_criteria p row =
     filter id
       [mean row < min_mean p, sec_win_rate row < min_win_rate p, sharpe row < min_sharpe p,
        sortino row < min_sortino p, stability row < min_stability p,
        sec_max_dd row < min_max_dd p]"

text \<open>One set of floors is at least as strict as another.\<close>

definition tighter :: "strict_params \<Rightarrow> strict_params \<Rightarrow> bool" where
  "tighter p p' =
     (min_mean p \<le> min_mean p' \<and> min_win_rate p \<le> min_win_rate p' \<and>
      min_sharpe p \<le> min_sharpe p' \<and> min_sortino p \<le> min_sortino p' \<and>
      min_stability p \<le> min_stability p' \<and> min_max_dd p \<le> min_max_dd p')"

section \<open>Trade rows\<close>

text \<open>
  One row of the trade table: the keys of the dictionary that \<open>backtest_signals\<close> appends,
  then \<open>rule_id\<close> and \<open>rule_quality_score\<close> that the merge with the scored rules attaches,
  then \<open>avg_ret\<close>, a column the portfolio engine consults when it is there.
  \<open>exit_date\<close> and \<open>ret\<close> are \<open>None\<close> for a trade that is still open.
\<close>

record trade =
  group :: string
  ticker :: string
  direction :: int
  signal_date :: date
  entry_date :: date
  exit_date :: "date option"
  entry_lag :: nat
  hold_days :: nat
  lookback :: nat
  group_thresh :: real
  participation :: real
  lagger_max_move :: real
  ret :: "real option"
  leaders :: string
  is_open :: bool
  rule_id :: "string option"
  rule_quality_score :: "real option"
  avg_ret :: "real option"

text \<open>
  The dtype of the \<open>exit_date\<close> column of a trade table. A table built from rows of which
  at least one has an exit date has a datetime column, and a missing date is NaT there. A
  table built from rows none of which has an exit date keeps the \<open>None\<close> objects the
  trade generator wrote, in an object column. Row selections and merges keep the dtype.
\<close>

datatype col_dtype = Datetime64 | Object

text \<open>
  The test \<open>tr["exit_date"] < day\<close> of the release loop: false on NaT, a TypeError on
  \<open>None\<close>.
\<close>

definition date_lt :: "col_dtype \<Rightarrow> date option \<Rightarrow> date \<Rightarrow> py_error + bool" where
  "date_lt dt c day =
     (case c of
        Some e \<Rightarrow> Inr (e < day)
      | None \<Rightarrow> (case dt of Datetime64 \<Rightarrow> Inr False | Object \<Rightarrow> Inl TypeError))"

text \<open>
  The two tests of the daily return loops. They run on the closed rows, after
  \<open>pd.to_datetime\<close>: the column is a datetime column, and a test against NaT is false.
\<close>

definition date_ge :: "date option \<Rightarrow> date \<Rightarrow> bool" where
  "date_ge c day = (case c of None \<Rightarrow> False | Some e \<Rightarrow> day \<le> e)"

definition date_eq :: "date option \<Rightarrow> date \<Rightarrow> bool" where
  "date_eq c day = (case c of None \<Rightarrow> False | Some e \<Rightarrow> e = day)"

text \<open>\<open>Series.sum()\<close>: missing cells are skipped, and the sum of nothing is 0.\<close>

definition nansum :: "real option list \<Rightarrow> real" where
  "nansum xs = sum_list (map (\<lambda>x. case x of None \<Rightarrow> 0 | Some r \<Rightarrow> r) xs)"

text \<open>\<open>Series * weight\<close>: a missing cell stays missing.\<close>

definition scale :: "real \<Rightarrow> real option \<Rightarrow> real option" where
  "scale w x = map_option (\<lambda>r. r * w) x"

text \<open>The dates present in a column (\<open>dropna\<close>).\<close>

definition dropna :: "'a option list \<Rightarrow> 'a list" where
  "dropna xs = List.map_filter id xs"

text \<open>
  \<open>sort_values(col, ascending=False)\<close>: rows with a missing key go last, the others are in
  descending order of the key, rows with equal keys in the order they had.
\<close>

definition sort_values_desc :: "('a \<Rightarrow> real option) \<Rightarrow> 'a list \<Rightarrow> 'a list" where
  "sort_values_desc key rows =
     sort_key (\<lambda>r. - the (key r)) (filter (\<lambda>r. key r \<noteq> None) rows)
       @ filter (\<lambda>r. key r = None) rows"

text \<open>
  A sample row, for running the definitions on small tables: a long trade on one ticker
  with the given entry date, exit date, return and quality score.
\<close>

definition sample_trade :: "date \<Rightarrow> date option \<Rightarrow> real option \<Rightarrow> real option \<Rightarrow> trade" where
  "sample_trade e x r q =
     \<lparr>group = ''TELECOM'', ticker = ''VZ'', direction = 1, signal_date = e, entry_date = e,
      exit_date = x, entry_lag = 0, hold_days = 3, lookback = 5, group_thresh = 3 / 100,
      participation = 3 / 5, lagger_max_move = 1 / 100, ret = r, leaders = ''TMUS,T'',
      is_open = (x = None), rule_id = Some ''R_0A1B2C3D'', rule_quality_score = q,
      avg_ret = None\<rparr>"

section \<open>Portfolio simulator (backtest/portfolio.py)\<close>

definition MAX_CONCURRENT_TRADES :: nat where
  "MAX_CONCURRENT_TRADES = 3"

text \<open>The body of the loop over \<open>all_days\<close> in \<open>_daily_returns_from_trades\<close>.\<close>

definition daily_ret_on :: "trade list \<Rightarrow> date \<Rightarrow> real" where
  "daily_ret_on closed_trades day =
     (let open_trades = filter (\<lambda>t. entry_date t \<le> day \<and> date_ge (exit_date t) day) closed_trades
      in if open_trades = [] then 0
         else let weight = 1 / real (length open_trades);
                  exiting = filter (\<lambda>t. date_eq (exit_date t) day) closed_trades
              in if exiting \<noteq> [] then nansum (map (\<lambda>t. scale weight (ret t)) exiting) else 0)"

text \<open>\<open>_daily_returns_from_trades\<close>: the series as (day, return) pairs in index order.\<close>

definition daily_returns_from_trades :: "trade list \<Rightarrow> (date \<times> real) list" where
  "daily_returns_from_trades trades =
     (let closed_trades = filter (\<lambda>t. exit_date t \<noteq> None) trades
      in if closed_trades = [] then []
         else let start = Min (set (map entry_date closed_trades));
                  end = Max (set (dropna (map exit_date closed_trades)));
                  all_days = bdate_range start end
              in map (\<lambda>day. (day, daily_ret_on closed_trades day)) all_days)"

text \<open>\<open>Series.cumprod()\<close>.\<close>

fun cumprod_from :: "real \<Rightarrow> real list \<Rightarrow> real list" where
  "cumprod_from acc [] = []"
| "cumprod_from acc (x # xs) = (acc * x) # cumprod_from (acc * x) xs"

definition cumprod :: "real list \<Rightarrow> real list" where
  "cumprod xs = cumprod_from 1 xs"

text \<open>
  The state of the day loop of \<open>_run_static_portfolio\<close>. A row keeps the index label it has
  in the sorted table, as the rows that \<open>iterrows\<close> yields do.
\<close>

record pstate =
  open_trades :: "(nat \<times> trade) list"
  used_trades :: "(nat \<times> trade) list"

text \<open>
  \<open>trades.sort_values("entry_date").reset_index(drop=True)\<close>. The sort is taken stable, which
  pandas' default is on short tables only; no statement below depends on the order of rows
  with equal entry dates.
\<close>

definition indexed_trades :: "trade list \<Rightarrow> (nat \<times> trade) list" where
  "indexed_trades trades = enumerate 0 (sort_key entry_date trades)"

definition all_dates :: "(nat \<times> trade) list \<Rightarrow> date list" where
  "all_dates trades =
     sort (remdups (map (entry_date \<circ> snd) trades @ dropna (map (exit_date \<circ> snd) trades)))"

text \<open>The ordering of the day's candidates: by quality score, else by \<open>avg_ret\<close>, else as they are.\<close>

definition order_todays :: "string list \<Rightarrow> (nat \<times> trade) list \<Rightarrow> (nat \<times> trade) list" where
  "order_todays cols todays =
     (if todays \<noteq> [] then
        (if ''rule_quality_score'' \<in> set cols
             \<and> \<not> list_all (\<lambda>(i, tr). rule_quality_score tr = None) todays
         then sort_values_desc (rule_quality_score \<circ> snd) todays
         else if ''avg_ret'' \<in> set cols
         then sort_values_desc (avg_ret \<circ> snd) todays
         else todays)
      else todays)"

text \<open>The admission loop \<open>for _, tr in todays.iterrows()\<close>.\<close>

fun admit :: "(nat \<times> trade) list \<Rightarrow> (nat \<times> trade) list \<Rightarrow> (nat \<times> trade) list" where
  "admit opened [] = opened"
| "admit opened (tr # todays) =
     admit (if length opened < MAX_CONCURRENT_TRADES then opened @ [tr] else opened) todays"

text \<open>
  The release loop \<open>for tr in open_trades\<close>: the rows to append to \<open>used_trades\<close> and
  the rows still open, or the error of the first comparison that raises.
\<close>

fun release ::
  "col_dtype \<Rightarrow> date \<Rightarrow> (nat \<times> trade) list
     \<Rightarrow> py_error + ((nat \<times> trade) list \<times> (nat \<times> trade) list)" where
  "release dt day [] = Inr ([], [])"
| "release dt day (tr # rest) =
     (case date_lt dt (exit_date (snd tr)) day of
        Inl e \<Rightarrow> Inl e
      | Inr released \<Rightarrow>
          (case release dt day rest of
             Inl e \<Rightarrow> Inl e
           | Inr (used, still_open) \<Rightarrow>
               if released then Inr (tr # used, still_open) else Inr (used, tr # still_open)))"

text \<open>
  One pass of the day loop: release, then admit. \<open>dt\<close> is the dtype of the \<open>exit_date\<close>
  column and \<open>cols\<close> are the column names of the table.
\<close>

definition day_step ::
  "col_dtype \<Rightarrow> string list \<Rightarrow> (nat \<times> trade) list \<Rightarrow> pstate \<Rightarrow> date \<Rightarrow> py_error + pstate" where
  "day_step dt cols trades st day =
     (case release dt day (open_trades st) of
        Inl e \<Rightarrow> Inl e
      | Inr (used, still_open) \<Rightarrow>
          let todays = filter (\<lambda>(i, tr). entry_date tr = day) trades
          in Inr \<lparr>open_trades = admit still_open (order_todays cols todays),
                  used_trades = used_trades st @ used\<rparr>)"

text \<open>The loop over the days from a given state: an exception ends it.\<close>

fun run_from ::
  "col_dtype \<Rightarrow> string list \<Rightarrow> (nat \<times> trade) list \<Rightarrow> pstate \<Rightarrow> date list \<Rightarrow> py_error + pstate" where
  "run_from dt cols trades st [] = Inr st"
| "run_from dt cols trades st (day # days) =
     (case day_step dt cols trades st day of
        Inl e \<Rightarrow> Inl e
      | Inr st' \<Rightarrow> run_from dt cols trades st' days)"

definition run_days ::
  "col_dtype \<Rightarrow> string list \<Rightarrow> (nat \<times> trade) list \<Rightarrow> date list \<Rightarrow> py_error + pstate" where
  "run_days dt cols trades days =
     run_from dt cols trades \<lparr>open_trades = [], used_trades = []\<rparr> days"

text \<open>The days the loop visits: \<open>pd.date_range(all_dates[0], all_dates[-1], freq="B")\<close>.\<close>

definition sim_days :: "(nat \<times> trade) list \<Rightarrow> date list" where
  "sim_days trades = bdate_range (hd (all_dates trades)) (last (all_dates trades))"

record portfolio_result =
  equity_curve :: "(date \<times> real) list"
  used_trades_df :: "(nat \<times> trade) list"

text \<open>
  \<open>_run_static_portfolio\<close>. With an empty table \<open>all_dates[0]\<close> raises. The metrics
  dictionary is computed from the two fields kept here and is left out.
\<close>

definition run_static_portfolio ::
  "col_dtype \<Rightarrow> string list \<Rightarrow> trade list \<Rightarrow> py_error + portfolio_result" where
  "run_static_portfolio dt cols trades_in =
     (let trades = indexed_trades trades_in
      in if all_dates trades = [] then Inl IndexError
         else (case run_days dt cols trades (sim_days trades) of
                 Inl e \<Rightarrow> Inl e
               | Inr st \<Rightarrow>
                   let used = used_trades st @ open_trades st
                   in if used = [] then Inr \<lparr>equity_curve = [], used_trades_df = used\<rparr>
                      else let daily_ret = daily_returns_from_trades (map snd used);
                               equity = zip (map fst daily_ret)
                                          (cumprod (map (\<lambda>(d, r). 1 + r) daily_ret))
                           in Inr \<lparr>equity_curve = equity, used_trades_df = used\<rparr>))"

text \<open>
  For the proofs: the day loop when no comparison raises. \<open>exit_before\<close> is the release
  test with a missing date read as not yet exited, \<open>step_ok\<close> the state a day then leaves
  and \<open>run_ok\<close> the state the days leave; \<open>day_step_result\<close> and \<open>run_days_result\<close>
  below relate them to \<open>day_step\<close> and \<open>run_days\<close>.
\<close>

definition exit_before :: "date option \<Rightarrow> date \<Rightarrow> bool" where
  "exit_before c day = (case c of None \<Rightarrow> False | Some e \<Rightarrow> e < day)"

definition step_ok :: "string list \<Rightarrow> (nat \<times> trade) list \<Rightarrow> pstate \<Rightarrow> date \<Rightarrow> pstate" where
  "step_ok cols trades st day =
     (let used = used_trades st @ filter (\<lambda>(i, tr). exit_before (exit_date tr) day) (open_trades st);
          still_open = filter (\<lambda>(i, tr). \<not> exit_before (exit_date tr) day) (open_trades st);
          todays = filter (\<lambda>(i, tr). entry_date tr = day) trades
      in \<lparr>open_trades = admit still_open (order_todays cols todays), used_trades = used\<rparr>)"

definition run_ok :: "string list \<Rightarrow> (nat \<times> trade) list \<Rightarrow> date list \<Rightarrow> pstate" where
  "run_ok cols trades days =
     foldl (step_ok cols trades) \<lparr>open_trades = [], used_trades = []\<rparr> days"

text \<open>A sample table: four trades entering on day 0, one open trade entering on day 1.\<close>

definition sample_table :: "trade list" where
  "sample_table =
     [sample_trade 0 (Some 3) (Some (1 / 10)) (Some 4),
      sample_trade 0 (Some 3) (Some (1 / 10)) (Some 1),
      sample_trade 0 (Some 3) (Some (1 / 10)) (Some 3),
      sample_trade 0 (Some 3) (Some (1 / 10)) (Some 2),
      sample_trade 1 None None (Some 5)]"

text \<open>A table of two open trades, entering on days 0 and 1.\<close>

definition sample_all_open_table :: "trade list" where
  "sample_all_open_table =
     [sample_trade 0 None None (Some 1), sample_trade 1 None None (Some 2)]"

text \<open>A second sample table: a trade that stays open, and a trade closed on day 2.\<close>

definition sample_open_table :: "trade list" where
  "sample_open_table =
     [sample_trade 0 None None (Some 1),
      sample_trade 1 (Some 2) (Some (1 / 10)) (Some 2)]"

section \<open>Sector daily returns (reporting/sector\_filters.py)\<close>

text \<open>\<open>Series.unique()\<close>: the distinct values in order of first appearance.\<close>

definition unique :: "'a list \<Rightarrow> 'a list" where
  "unique xs = rev (remdups (rev xs))"

text \<open>
  The body of the two nested loops of \<open>_compute_sector_daily_returns\<close>: the cell of the
  table for one day and one sector. A cell that no branch assigns keeps its initial 0.
\<close>

definition sector_ret_on :: "trade list \<Rightarrow> date \<Rightarrow> string \<Rightarrow> real" where
  "sector_ret_on closed_trades day sector =
     (let day_trades =
            filter (\<lambda>t. entry_date t \<le> day \<and> date_ge (exit_date t) day) closed_trades
      in if day_trades = [] then 0
         else let sec_trades = filter (\<lambda>t. group t = sector) day_trades
              in if sec_trades = [] then 0
                 else let weight = 1 / real (length sec_trades);
                          exits = filter (\<lambda>t. date_eq (exit_date t) day) sec_trades
                      in if exits \<noteq> [] then nansum (map (\<lambda>t. scale weight (ret t)) exits)
                         else 0)"

text \<open>
  \<open>_compute_sector_daily_returns\<close>: the table as rows (day, cells), a cell being
  (sector, return), with the sectors in column order. No closed trade gives the empty table.
\<close>

definition compute_sector_daily_returns :: "trade list \<Rightarrow> (date \<times> (string \<times> real) list) list" where
  "compute_sector_daily_returns trades =
     (let closed_trades = filter (\<lambda>t. exit_date t \<noteq> None) trades
      in if closed_trades = [] then []
         else let start = Min (set (map entry_date closed_trades));
                  end = Max (set (dropna (map exit_date closed_trades)));
                  all_days = bdate_range start end;
                  sectors = unique (map group closed_trades)
              in map (\<lambda>day. (day, map (\<lambda>sector. (sector, sector_ret_on closed_trades day sector))
                                   sectors))
                   all_days)"

text \<open>A sample row in a given sector.\<close>

definition sample_sector_trade ::
  "string \<Rightarrow> date \<Rightarrow> date option \<Rightarrow> real option \<Rightarrow> trade" where
  "sample_sector_trade g e x r = (sample_trade e x r None)\<lparr>group := g\<rparr>"

text \<open>A sample sector table: two trades of one sector, overlapping on days 1 and 2.\<close>

definition sample_sector_table :: "trade list" where
  "sample_sector_table =
     [sample_sector_trade ''TELECOM'' 0 (Some 2) (Some (4 / 100)),
      sample_sector_trade ''TELECOM'' 1 (Some 3) (Some (1 / 100))]"

section \<open>Rule identity and rule scoring (backtest/rule\_scoring.py)\<close>

text \<open>
  The values of the seven \<open>RULE_KEY_COLS\<close> of a row, in the order of that list:
  lookback, group\_thresh, participation, lagger\_max\_move, entry\_lag, hold\_days, group.
\<close>

type_synonym rule_key = "nat \<times> real \<times> real \<times> real \<times> nat \<times> nat \<times> string"

definition rule_key_of :: "trade \<Rightarrow> rule_key" where
  "rule_key_of t =
     (lookback t, group_thresh t, participation t, lagger_max_move t, entry_lag t, hold_days t,
      group t)"

text \<open>The values a rule parameter dictionary holds.\<close>

datatype json_value = JInt int | JFloat real | JStr string

text \<open>\<open>{k: row[k] for k in RULE_KEY_COLS}\<close>: a dictionary is the list of its items in insertion order.\<close>

definition rule_params :: "rule_key \<Rightarrow> (string \<times> json_value) list" where
  "rule_params k =
     (case k of (lb, gt, part, lmm, elag, hold, g) \<Rightarrow>
        [(''lookback'', JInt (int lb)), (''group_thresh'', JFloat gt),
         (''participation'', JFloat part), (''lagger_max_move'', JFloat lmm),
         (''entry_lag'', JInt (int elag)), (''hold_days'', JInt (int hold)),
         (''group'', JStr g)])"

text \<open>\<open>sep.join(parts)\<close>.\<close>

fun join :: "string \<Rightarrow> string list \<Rightarrow> string" where
  "join sep [] = []"
| "join sep [x] = x"
| "join sep (x # y # ys) = x @ sep @ join sep (y # ys)"

text \<open>
  \<open>json.dumps(rule_params, sort_keys=True)\<close>: the items in ascending order of their keys
  (strings compare by code point, lexicographically), written \<open>"key": value\<close> and separated
  by a comma and a space. \<open>enc\<close> is the library's encoder of a single value (a quoted
  string, the decimal form of a number).
\<close>

definition json_dumps_sorted :: "(json_value \<Rightarrow> string) \<Rightarrow> (string \<times> json_value) list \<Rightarrow> string" where
  "json_dumps_sorted enc d =
     ''{'' @ join '', '' (map (\<lambda>(k, v). enc (JStr k) @ '': '' @ enc v) (sort_key fst d)) @ ''}''"

text \<open>\<open>str.upper()\<close> on one ASCII character.\<close>

definition upper_char :: "char \<Rightarrow> char" where
  "upper_char c =
     (if CHR ''a'' \<le> c \<and> c \<le> CHR ''z'' then char_of (of_char c - (32::nat)) else c)"

text \<open>
  \<open>generate_rule_id\<close>. \<open>sha1_hex s\<close> stands for \<open>hashlib.sha1(s.encode("utf-8")).hexdigest()\<close>,
  a function of the library.
\<close>

definition generate_rule_id ::
  "(string \<Rightarrow> string) \<Rightarrow> (json_value \<Rightarrow> string) \<Rightarrow> (string \<times> json_value) list \<Rightarrow> string" where
  "generate_rule_id sha1_hex enc rule_params_dict =
     (let canonical = json_dumps_sorted enc rule_params_dict;
          h = sha1_hex canonical;
          short = map upper_char (take 8 h)
      in ''R_'' @ short)"

text \<open>\<open>_compute_rule_quality\<close>.\<close>

definition compute_rule_quality :: "real \<Rightarrow> real \<Rightarrow> real \<Rightarrow> nat \<Rightarrow> real" where
  "compute_rule_quality avg_ret_v win_rate_v max_dd_v n =
     (let penalty = (if n < 50 then 0.5 else if n < 200 then 0.8 else 1.0);
          dd_term = max (1 / 1000000) \<bar>max_dd_v\<bar>
      in (avg_ret_v * win_rate_v * penalty) / dd_term)"

text \<open>\<open>Series.mean()\<close> and \<open>Series.min()\<close>: missing cells are skipped; NaN when none is left.\<close>

definition nanmean :: "real option list \<Rightarrow> real option" where
  "nanmean xs = (if dropna xs = [] then None
                 else Some (sum_list (dropna xs) / real (length (dropna xs))))"

definition nanmin :: "real option list \<Rightarrow> real option" where
  "nanmin xs = (if dropna xs = [] then None else Some (Min (set (dropna xs))))"

text \<open>\<open>np.mean(x > 0.0)\<close>: the comparison is false on a missing cell, and the mean is over all cells.\<close>

definition mean_positive :: "real option list \<Rightarrow> real" where
  "mean_positive xs =
     real (length (filter (\<lambda>x. case x of None \<Rightarrow> False | Some r \<Rightarrow> r > 0) xs)) / real (length xs)"

text \<open>One row of the table \<open>score_rules\<close> returns.\<close>

record rule_stats =
  rs_key :: rule_key
  rs_rule_id :: string
  n_trades :: nat
  avg_ret_full :: "real option"
  win_rate :: real
  max_dd :: "real option"
  rs_rule_quality_score :: "real option"

text \<open>
  \<open>score_rules\<close>. A typed row has every required column, so the check for missing columns
  has no counterpart. \<open>groupby\<close> yields the distinct keys in ascending order; \<open>size\<close>
  counts the rows of a group, whatever their \<open>ret\<close>. A NaN average makes the quality NaN.
\<close>

definition score_rules ::
  "(string \<Rightarrow> string) \<Rightarrow> (json_value \<Rightarrow> string) \<Rightarrow> trade list \<Rightarrow> rule_stats list" where
  "score_rules sha1_hex enc trades_df =
     map (\<lambda>k.
            let x = map ret (filter (\<lambda>t. rule_key_of t = k) trades_df);
                n = length x;
                avg = nanmean x;
                win = mean_positive x;
                dd = nanmin x
            in \<lparr>rs_key = k,
                rs_rule_id = generate_rule_id sha1_hex enc (rule_params k),
                n_trades = n,
                avg_ret_full = avg,
                win_rate = win,
                max_dd = dd,
                rs_rule_quality_score =
                  (case (avg, dd) of
                     (Some a, Some m) \<Rightarrow> Some (compute_rule_quality a win m n)
                   | _ \<Rightarrow> None)\<rparr>)
       (sort (remdups (map rule_key_of trades_df)))"

section \<open>Price table and signals\<close>

text \<open>
  A price table (a DataFrame indexed by date): the dates of its index and, per column, the
  ticker and its prices. Every column has one price per date of the index, and the index
  holds no date twice.
\<close>

record frame =
  index :: "date list"
  columns :: "(string \<times> real list) list"

text \<open>The dictionary the detector appends for every signal.\<close>

record signal =
  sig_group :: string
  sig_ticker :: string
  sig_direction :: int
  sig_lookback :: nat
  sig_group_thresh :: real
  sig_participation :: real
  sig_lagger_max_move :: real
  sig_signal_date :: date
  sig_start_date :: date
  sig_leaders :: "string list"
  lagger_ret :: real
  window_rets :: "(string \<times> real) list"

section \<open>Trade generator (backtest/trade\_generator.py)\<close>

text \<open>\<open>Index.get_loc(date)\<close> on an index without duplicates; \<open>None\<close> is the KeyError.\<close>

fun get_loc :: "date list \<Rightarrow> date \<Rightarrow> nat option" where
  "get_loc [] d = None"
| "get_loc (x # xs) d = (if x = d then Some 0 else map_option Suc (get_loc xs d))"

definition entry_lags :: "nat list" where
  "entry_lags = [0, 1, 2, 3]"

definition holds :: "nat list" where
  "holds = [3, 5, 7, 10]"

text \<open>
  The set \<open>unique_param_sets\<close>, as a list without duplicates (the order in which Python
  walks the set does not reach the result: one tuple only matches a signal).
\<close>

definition unique_param_sets :: "signal list \<Rightarrow> (nat \<times> real \<times> real \<times> real) list" where
  "unique_param_sets signals =
     remdups (map (\<lambda>s. (sig_lookback s, sig_group_thresh s, sig_participation s,
                          sig_lagger_max_move s)) signals)"

definition adaptive_rule_grid ::
  "signal list \<Rightarrow> (nat \<times> real \<times> real \<times> real \<times> nat \<times> nat) list" where
  "adaptive_rule_grid signals =
     concat (map (\<lambda>(lb, gt, part, lag).
               concat (map (\<lambda>elag. map (\<lambda>hold. (lb, gt, part, lag, elag, hold)) holds)
                         entry_lags))
            (unique_param_sets signals))"

text \<open>
  The body of the loop over the grid for one signal found at \<open>signal_loc\<close>: nothing for a
  parameter set of another signal or an entry index past the end, else one trade row,
  open when the exit index is past the end.
\<close>

definition trade_for ::
  "date list \<Rightarrow> real list \<Rightarrow> signal \<Rightarrow> nat
     \<Rightarrow> (nat \<times> real \<times> real \<times> real \<times> nat \<times> nat) \<Rightarrow> trade list" where
  "trade_for idx ticker_series sig signal_loc params =
     (case params of (lb, gt, part, lag, elag, hold) \<Rightarrow>
        if lb \<noteq> sig_lookback sig \<or> gt \<noteq> sig_group_thresh sig
             \<or> part \<noteq> sig_participation sig \<or> lag \<noteq> sig_lagger_max_move sig
        then []
        else let entry_idx = signal_loc + elag
             in if entry_idx \<ge> length idx then []
                else let entry_date_v = idx ! entry_idx;
                         exit_idx = entry_idx + hold;
                         (exit_date_v, ret_v) =
                           (if exit_idx < length idx
                            then (Some (idx ! exit_idx),
                                  Some ((ticker_series ! exit_idx / ticker_series ! entry_idx - 1)
                                          * real_of_int (sig_direction sig)))
                            else (None, None))
                     in [\<lparr>group = sig_group sig,
                          ticker = sig_ticker sig,
                          direction = sig_direction sig,
                          signal_date = sig_signal_date sig,
                          entry_date = entry_date_v,
                          exit_date = exit_date_v,
                          entry_lag = elag,
                          hold_days = hold,
                          lookback = sig_lookback sig,
                          group_thresh = sig_group_thresh sig,
                          participation = sig_participation sig,
                          lagger_max_move = sig_lagger_max_move sig,
                          ret = ret_v,
                          leaders = join '','' (sig_leaders sig),
                          is_open = (exit_date_v = None),
                          rule_id = None,
                          rule_quality_score = None,
                          avg_ret = None\<rparr>])"

text \<open>The body of the loop over the signals: a ticker or a date the table lacks is skipped.\<close>

definition trades_of_signal ::
  "frame \<Rightarrow> (nat \<times> real \<times> real \<times> real \<times> nat \<times> nat) list \<Rightarrow> signal \<Rightarrow> trade list" where
  "trades_of_signal series grid sig =
     (case map_of (columns series) (sig_ticker sig) of
        None \<Rightarrow> []
      | Some ticker_series \<Rightarrow>
          (case get_loc (index series) (sig_signal_date sig) of
             None \<Rightarrow> []
           | Some signal_loc \<Rightarrow>
               concat (map (trade_for (index series) ticker_series sig signal_loc) grid)))"

text \<open>
  \<open>df.merge(scored_rules[merge_cols], on=RULE_KEY_COLS, how="left")\<close>: every trade row is
  kept, once per scored rule with its key, or once with empty rule columns.
\<close>

definition merge_left :: "trade list \<Rightarrow> rule_stats list \<Rightarrow> trade list" where
  "merge_left df scored =
     concat (map (\<lambda>t. case filter (\<lambda>r. rs_key r = rule_key_of t) scored of
                         [] \<Rightarrow> [t\<lparr>rule_id := None, rule_quality_score := None\<rparr>]
                       | ms \<Rightarrow> map (\<lambda>r. t\<lparr>rule_id := Some (rs_rule_id r),
                                             rule_quality_score := rs_rule_quality_score r\<rparr>) ms)
               df)"

text \<open>\<open>backtest_signals\<close>. The empty table is the empty list, with or without signals.\<close>

definition backtest_signals :: "frame \<Rightarrow> signal list \<Rightarrow> rule_stats list option \<Rightarrow> trade list" where
  "backtest_signals series signals scored_rules =
     (if signals = [] then []
      else let df = concat (map (trades_of_signal series (adaptive_rule_grid signals)) signals)
           in if df = [] then []
              else (case scored_rules of
                      None \<Rightarrow> df
                    | Some scored \<Rightarrow> if scored \<noteq> [] then merge_left df scored else df))"

text \<open>A sample price table of three dates, and a sample signal on its last date.\<close>

definition sample_frame :: frame where
  "sample_frame = \<lparr>index = [0, 1, 2], columns = [(''VZ'', [100, 101, 102])]\<rparr>"

definition sample_signal :: signal where
  "sample_signal =
     \<lparr>sig_group = ''TELECOM'', sig_ticker = ''VZ'', sig_direction = 1, sig_lookback = 2,
      sig_group_thresh = 3 / 100, sig_participation = 3 / 5, sig_lagger_max_move = 1 / 100,
      sig_signal_date = 2, sig_start_date = 0, sig_leaders = [''TMUS'', ''T''],
      lagger_ret = 2 / 100,
      window_rets = [(''TMUS'', 6 / 100), (''T'', 5 / 100), (''VZ'', 2 / 100)]\<rparr>"

section \<open>Signal detector (signals/lag\_detector.py)\<close>

definition MIN_LEADERS_PER_SIGNAL :: nat where
  "MIN_LEADERS_PER_SIGNAL = 2"

definition MIN_LAGGERS_PER_SIGNAL :: nat where
  "MIN_LAGGERS_PER_SIGNAL = 1"

definition MIN_WINDOW_STD :: real where
  "MIN_WINDOW_STD = 1 / 100"

text \<open>\<open>Series.std()\<close>: the sample standard deviation (divisor \<open>n - 1\<close>), NaN below two values.\<close>

definition series_var :: "real list \<Rightarrow> real" where
  "series_var xs =
     (let m = sum_list xs / real (length xs)
      in sum_list (map (\<lambda>x. (x - m)\<^sup>2) xs) / real (length xs - 1))"

definition series_std :: "real list \<Rightarrow> real option" where
  "series_std xs = (if length xs < 2 then None else Some (sqrt (series_var xs)))"

text \<open>The return of every ticker over a window: \<open>window_prices.iloc[-1] / window_prices.iloc[0] - 1.0\<close>.\<close>

definition window_returns :: "frame \<Rightarrow> nat \<Rightarrow> nat \<Rightarrow> (string \<times> real) list" where
  "window_returns series_group start_idx end_idx =
     map (\<lambda>(t, prices). (t, prices ! end_idx / prices ! start_idx - 1)) (columns series_group)"

text \<open>The test \<open>window_rets.std() < MIN_WINDOW_STD\<close>; a comparison with NaN is false.\<close>

definition below_floor :: "(string \<times> real) list \<Rightarrow> bool" where
  "below_floor rets =
     (case series_std (map snd rets) of None \<Rightarrow> False | Some s \<Rightarrow> s < MIN_WINDOW_STD)"

text \<open>The movers of each side and their fractions, for a direction \<open>"up"\<close>, \<open>"down"\<close> or \<open>"both"\<close>.\<close>

definition movers_up :: "string \<Rightarrow> real \<Rightarrow> (string \<times> real) list \<Rightarrow> (string \<times> real) list" where
  "movers_up direction_s group_thresh_v rets =
     (if direction_s \<in> {''up'', ''both''} then filter (\<lambda>(t, r). r \<ge> group_thresh_v) rets else [])"

definition movers_down :: "string \<Rightarrow> real \<Rightarrow> (string \<times> real) list \<Rightarrow> (string \<times> real) list" where
  "movers_down direction_s group_thresh_v rets =
     (if direction_s \<in> {''down'', ''both''} then filter (\<lambda>(t, r). r \<le> - group_thresh_v) rets
      else [])"

definition frac_up :: "string \<Rightarrow> real \<Rightarrow> (string \<times> real) list \<Rightarrow> real" where
  "frac_up direction_s group_thresh_v rets =
     (if direction_s \<in> {''up'', ''both''}
      then real (length (movers_up direction_s group_thresh_v rets)) / real (length rets) else 0)"

definition frac_down :: "string \<Rightarrow> real \<Rightarrow> (string \<times> real) list \<Rightarrow> real" where
  "frac_down direction_s group_thresh_v rets =
     (if direction_s \<in> {''down'', ''both''}
      then real (length (movers_down direction_s group_thresh_v rets)) / real (length rets) else 0)"

text \<open>The decision on the direction of the sector move: the sign and the leaders, or no signal.\<close>

definition decide_direction ::
  "string \<Rightarrow> real \<Rightarrow> real \<Rightarrow> (string \<times> real) list \<Rightarrow> (int \<times> string list) option" where
  "decide_direction direction_s group_thresh_v participation_v rets =
     (let fu = frac_up direction_s group_thresh_v rets;
          fd = frac_down direction_s group_thresh_v rets
      in if fu \<ge> participation_v \<and> fu \<ge> fd
         then Some (1, map fst (movers_up direction_s group_thresh_v rets))
         else if fd \<ge> participation_v \<and> fd > fu
         then Some (- 1, map fst (movers_down direction_s group_thresh_v rets))
         else None)"

text \<open>The laggers: the tickers that barely moved, leaders excluded.\<close>

definition find_laggers :: "real \<Rightarrow> string list \<Rightarrow> (string \<times> real) list \<Rightarrow> (string \<times> real) list" where
  "find_laggers lagger_max_move_v leaders_v rets =
     filter (\<lambda>(t, r). t \<notin> set leaders_v) (filter (\<lambda>(t, r). \<bar>r\<bar> \<le> lagger_max_move_v) rets)"

text \<open>
  The body of the loop over the windows. With no ticker at all, the division by
  \<open>len(tickers)\<close> raises.
\<close>

definition window_signals ::
  "string \<Rightarrow> nat \<Rightarrow> real \<Rightarrow> real \<Rightarrow> real \<Rightarrow> string \<Rightarrow> date \<Rightarrow> date \<Rightarrow> (string \<times> real) list
     \<Rightarrow> py_error + signal list" where
  "window_signals group_name lookback_v group_thresh_v participation_v lagger_max_move_v
       direction_s end_date start_date rets =
     (if below_floor rets then Inr []
      else if rets = [] \<and> direction_s \<in> {''up'', ''down'', ''both''} then Inl ZeroDivisionError
      else (case decide_direction direction_s group_thresh_v participation_v rets of
              None \<Rightarrow> Inr []
            | Some (dir_sign, leaders_v) \<Rightarrow>
                if length leaders_v < MIN_LEADERS_PER_SIGNAL then Inr []
                else let laggers = find_laggers lagger_max_move_v leaders_v rets
                     in if length laggers < MIN_LAGGERS_PER_SIGNAL then Inr []
                        else Inr (map (\<lambda>(lagger_ticker, lagger_ret_v).
                                    \<lparr>sig_group = group_name,
                                     sig_ticker = lagger_ticker,
                                     sig_direction = dir_sign,
                                     sig_lookback = lookback_v,
                                     sig_group_thresh = group_thresh_v,
                                     sig_participation = participation_v,
                                     sig_lagger_max_move = lagger_max_move_v,
                                     sig_signal_date = end_date,
                                     sig_start_date = start_date,
                                     sig_leaders = leaders_v,
                                     lagger_ret = lagger_ret_v,
                                     window_rets = rets\<rparr>) laggers)))"

text \<open>The loop over the windows: an exception ends it, else the signals accumulate.\<close>

fun collect :: "(nat \<Rightarrow> py_error + signal list) \<Rightarrow> nat list \<Rightarrow> py_error + signal list" where
  "collect f [] = Inr []"
| "collect f (i # is) =
     (case f i of
        Inl e \<Rightarrow> Inl e
      | Inr sigs \<Rightarrow> (case collect f is of Inl e \<Rightarrow> Inl e | Inr rest \<Rightarrow> Inr (sigs @ rest)))"

text \<open>\<open>_detect_lag_signals_for_group\<close>.\<close>

definition detect_lag_signals_for_group ::
  "frame \<Rightarrow> string \<Rightarrow> nat \<Rightarrow> real \<Rightarrow> real \<Rightarrow> real \<Rightarrow> string \<Rightarrow> py_error + signal list" where
  "detect_lag_signals_for_group series_group group_name lookback_v group_thresh_v
       participation_v lagger_max_move_v direction_s =
     collect (\<lambda>end_idx.
                let end_date = index series_group ! end_idx;
                    start_idx = end_idx - lookback_v;
                    start_date = index series_group ! start_idx
                in window_signals group_name lookback_v group_thresh_v participation_v
                     lagger_max_move_v direction_s end_date start_date
                     (window_returns series_group start_idx end_idx))
       [lookback_v ..< length (index series_group)]"

text \<open>A sample group of three tickers over two dates.\<close>

definition sample_group :: frame where
  "sample_group =
     \<lparr>index = [0, 1],
      columns = [(''TMUS'', [100, 106]), (''T'', [100, 105]), (''VZ'', [1000, 996])]\<rparr>"

section \<open>Properties of the gate\<close>

lemma evaluate_ok_iff:
  "fst (evaluate_sector_weighted_strict fmt p row) =
     (min_mean p \<le> mean row \<and> min_win_rate p \<le> sec_win_rate row \<and>
      min_sharpe p \<le> sharpe row \<and> min_sortino p \<le> sortino row \<and>
      min_stability p \<le> stability row \<and> min_max_dd p \<le> sec_max_dd row)"
  by (auto simp: evaluate_sector_weighted_strict_def)

lemma evaluate_reasons_length:
  "length (snd (evaluate_sector_weighted_strict fmt p row)) = length (failed_criteria p row)"
  by (simp add: evaluate_sector_weighted_strict_def failed_criteria_def)

lemma evaluate_antitone:
  "tighter p p' \<Longrightarrow> fst (evaluate_sector_weighted_strict fmt p' row)
     \<Longrightarrow> fst (evaluate_sector_weighted_strict fmt p row)"
  unfolding evaluate_ok_iff tighter_def by linarith

lemma investable_sectors_iff:
  "investable_sectors fmt p metrics =
     {sec_group row | row. row \<in> set metrics \<and> fst (evaluate_sector_weighted_strict fmt p row)}"
  by (auto simp: investable_sectors_def flag_sectors_def split_beta image_iff)

section \<open>Properties of the portfolio simulator\<close>

lemma admit_length:
  "length s \<le> MAX_CONCURRENT_TRADES \<Longrightarrow> length (admit s ts) \<le> MAX_CONCURRENT_TRADES"
  by (induction s ts rule: admit.induct) auto

lemma admit_subset: "set (admit s ts) \<subseteq> set s \<union> set ts"
  by (induction s ts rule: admit.induct) auto

lemma admit_keeps: "set s \<subseteq> set (admit s ts)"
  by (induction s ts rule: admit.induct) auto

lemma set_sort_values_desc: "set (sort_values_desc key rows) = set rows"
  by (auto simp: sort_values_desc_def)

lemma set_order_todays: "set (order_todays cols todays) = set todays"
  by (simp add: order_todays_def set_sort_values_desc)

lemma step_ok_cap:
  "length (open_trades st) \<le> MAX_CONCURRENT_TRADES
   \<Longrightarrow> length (open_trades (step_ok cols trades st day)) \<le> MAX_CONCURRENT_TRADES"
  unfolding step_ok_def Let_def
  by (simp, rule admit_length, rule order_trans[OF length_filter_le])

lemma run_ok_snoc: "run_ok cols trades (ds @ [d]) = step_ok cols trades (run_ok cols trades ds) d"
  by (simp add: run_ok_def)

lemma run_ok_cap: "length (open_trades (run_ok cols trades days)) \<le> MAX_CONCURRENT_TRADES"
proof (induction days rule: rev_induct)
  case Nil show ?case by (simp add: run_ok_def)
next
  case (snoc d ds) then show ?case by (simp add: run_ok_snoc step_ok_cap)
qed

lemma step_ok_open_cases:
  assumes "row \<in> set (open_trades (step_ok cols trades st day))"
  shows "row \<in> set (open_trades st) \<or> (row \<in> set trades \<and> entry_date (snd row) = day)"
proof -
  from assms admit_subset show ?thesis
    unfolding step_ok_def Let_def
    by (fastforce simp: set_order_todays)
qed

lemma step_ok_keeps_open:
  assumes "row \<in> set (open_trades st)" "exit_date (snd row) = None"
  shows "row \<in> set (open_trades (step_ok cols trades st day))"
proof -
  have "row \<in> set (filter (\<lambda>(i, tr). \<not> exit_before (exit_date tr) day) (open_trades st))"
    using assms by (auto simp: exit_before_def split: prod.splits)
  with admit_keeps show ?thesis
    unfolding step_ok_def Let_def by (auto simp add: subset_iff)
qed

lemma step_ok_used:
  assumes "row \<in> set (used_trades (step_ok cols trades st day))"
  shows "row \<in> set (used_trades st) \<or> (row \<in> set (open_trades st) \<and> exit_before (exit_date (snd row)) day)"
  using assms unfolding step_ok_def Let_def by auto

lemma open_origin:
  "row \<in> set (open_trades (run_ok cols trades days)) \<Longrightarrow>
   \<exists>j < length days. days ! j = entry_date (snd row) \<and>
      row \<in> set (open_trades (run_ok cols trades (take (Suc j) days)))"
proof (induction days rule: rev_induct)
  case Nil then show ?case by (simp add: run_ok_def)
next
  case (snoc d ds)
  from snoc.prems have "row \<in> set (open_trades (step_ok cols trades (run_ok cols trades ds) d))"
    by (simp add: run_ok_snoc)
  then consider (old) "row \<in> set (open_trades (run_ok cols trades ds))"
    | (new) "entry_date (snd row) = d" "row \<notin> set (open_trades (run_ok cols trades ds))"
    using step_ok_open_cases by blast
  then show ?case
  proof cases
    case old
    from snoc.IH [OF old] obtain j where j: "j < length ds" "ds ! j = entry_date (snd row)"
      "row \<in> set (open_trades (run_ok cols trades (take (Suc j) ds)))" by blast
    then show ?thesis
      by (intro exI [of _ j]) (simp add: nth_append)
  next
    case new
    with snoc.prems show ?thesis
      by (intro exI [of _ "length ds"]) simp
  qed
qed

lemma used_closed:
  "row \<in> set (used_trades (run_ok cols trades days)) \<Longrightarrow> exit_date (snd row) \<noteq> None"
proof (induction days rule: rev_induct)
  case Nil then show ?case by (simp add: run_ok_def)
next
  case (snoc d ds)
  then show ?case
    using step_ok_used [of row cols trades "run_ok cols trades ds" d]
    by (auto simp: run_ok_snoc exit_before_def split: option.splits)
qed

lemma run_ok_append:
  "run_ok cols trades (ds @ es) = foldl (step_ok cols trades) (run_ok cols trades ds) es"
  by (simp add: run_ok_def)

lemma stays_open_foldl:
  "row \<in> set (open_trades st) \<Longrightarrow> exit_date (snd row) = None \<Longrightarrow>
   row \<in> set (open_trades (foldl (step_ok cols trades) st es))"
  by (induction es arbitrary: st) (simp_all add: step_ok_keeps_open)

lemma run_ok_take_le:
  "j \<le> k \<Longrightarrow> run_ok cols trades (take k days)
     = foldl (step_ok cols trades) (run_ok cols trades (take j days)) (drop j (take k days))"
proof -
  assume "j \<le> k"
  then have "take k days = take j days @ drop j (take k days)"
    by (metis append_take_drop_id min.absorb1 take_take)
  then show ?thesis
    using run_ok_append [of cols trades "take j days" "drop j (take k days)"] by simp
qed

lemma release_result:
  "release dt day xs =
     (if dt = Object \<and> (\<exists>row \<in> set xs. exit_date (snd row) = None) then Inl TypeError
      else Inr (filter (\<lambda>(i, tr). exit_before (exit_date tr) day) xs,
                filter (\<lambda>(i, tr). \<not> exit_before (exit_date tr) day) xs))"
proof (induction xs)
  case Nil
  show ?case by simp
next
  case (Cons x xs)
  show ?case
  proof (cases "exit_date (snd x)")
    case None
    then show ?thesis
      using Cons by (cases dt) (auto simp: date_lt_def exit_before_def split: prod.splits)
  next
    case (Some e)
    then show ?thesis
      using Cons by (auto simp: date_lt_def exit_before_def split: prod.splits)
  qed
qed

lemma day_step_result:
  "day_step dt cols trades st day =
     (if dt = Object \<and> (\<exists>row \<in> set (open_trades st). exit_date (snd row) = None)
      then Inl TypeError
      else Inr (step_ok cols trades st day))"
  by (simp add: day_step_def release_result step_ok_def Let_def)

lemma run_from_result:
  "run_from dt cols trades st days = Inr st' \<Longrightarrow> st' = foldl (step_ok cols trades) st days"
proof (induction days arbitrary: st)
  case Nil
  then show ?case by simp
next
  case (Cons d ds)
  from Cons.prems have "day_step dt cols trades st d = Inr (step_ok cols trades st d)"
    by (auto simp: day_step_result split: if_splits)
  with Cons.prems have "run_from dt cols trades (step_ok cols trades st d) ds = Inr st'"
    by simp
  from Cons.IH [OF this] show ?case by simp
qed

lemma run_from_datetime:
  "run_from Datetime64 cols trades st days = Inr (foldl (step_ok cols trades) st days)"
  by (induction days arbitrary: st) (simp_all add: day_step_result)

lemma run_days_result:
  "run_days dt cols trades days = Inr st \<Longrightarrow> st = run_ok cols trades days"
  unfolding run_days_def run_ok_def by (rule run_from_result)

lemma run_days_datetime:
  "run_days Datetime64 cols trades days = Inr (run_ok cols trades days)"
  unfolding run_days_def run_ok_def by (rule run_from_datetime)

lemma run_ok_never_later:
  assumes dist: "distinct days"
    and jk: "j < k" and kl: "k \<le> length days" and dj: "days ! j = entry_date (snd row)"
    and out: "row \<notin> set (open_trades (run_ok cols trades (take (Suc j) days)))"
  shows "row \<notin> set (open_trades (run_ok cols trades (take k days)))"
proof
  assume "row \<in> set (open_trades (run_ok cols trades (take k days)))"
  from open_origin [OF this] obtain i where i0: "i < length (take k days)"
    "take k days ! i = entry_date (snd row)"
    "row \<in> set (open_trades (run_ok cols trades (take (Suc i) (take k days))))"
    by blast
  from i0(1) kl have ik: "i < k" by simp
  with kl have il: "i < length days" by simp
  from ik have "min (Suc i) k = Suc i" by simp
  then have tt: "take (Suc i) (take k days) = take (Suc i) days" by simp
  from ik i0(2) have "days ! i = entry_date (snd row)" by simp
  note i = ik il this i0(3) [unfolded tt]
  from jk kl have jl: "j < length days" by simp
  from i(3) dj have "days ! i = days ! j" by (rule trans [OF _ sym])
  with nth_eq_iff_index_eq [OF dist il jl] have "i = j" by blast
  with i(4) out show False by blast
qed

lemma open_trade_stays:
  assumes sj: "run_days dt cols trades (take j days) = Inr sj"
    and sk: "run_days dt cols trades (take k days) = Inr sk"
    and jk: "j \<le> k"
    and op: "row \<in> set (open_trades sj)" and ex: "exit_date (snd row) = None"
  shows "row \<in> set (open_trades sk) \<and> row \<notin> set (used_trades sk)"
proof -
  from run_days_result [OF sj] run_days_result [OF sk]
  have e: "sj = run_ok cols trades (take j days)" "sk = run_ok cols trades (take k days)" .
  from op ex have "row \<in> set (open_trades sk)"
    unfolding e
    using stays_open_foldl [of row "run_ok cols trades (take j days)" cols trades
        "drop j (take k days)"]
    by (simp add: run_ok_take_le [OF jk])
  moreover have "row \<notin> set (used_trades sk)"
    unfolding e using used_closed [of row cols trades "take k days"] ex by blast
  ultimately show ?thesis ..
qed

lemma distinct_bdate_range: "distinct (bdate_range s e)"
  by (simp add: bdate_range_def)

lemma sorted_bdate_range: "sorted_wrt (<) (bdate_range s e)"
  by (simp add: bdate_range_def sorted_wrt_filter)


lemma length_cumprod_from: "length (cumprod_from a xs) = length xs"
  by (induction xs arbitrary: a) auto

lemma cumprod_from_nth:
  "k < length xs \<Longrightarrow> cumprod_from a xs ! k = a * prod_list (take (Suc k) xs)"
proof (induction xs arbitrary: a k)
  case Nil then show ?case by simp
next
  case (Cons x xs)
  show ?case
  proof (cases k)
    case 0 then show ?thesis by simp
  next
    case (Suc m)
    with Cons.prems have "m < length xs" by simp
    from Cons.IH [OF this, of "a * x"] Suc show ?thesis by (simp add: mult.assoc)
  qed
qed

lemma nansum_present:
  "\<forall>t \<in> set ts. ret t \<noteq> None \<Longrightarrow>
   nansum (map (\<lambda>t. scale w (ret t)) ts) = (\<Sum>t\<leftarrow>ts. the (ret t) * w)"
  by (induction ts) (auto simp: nansum_def scale_def)

lemma filter_closed_date_eq:
  "filter (\<lambda>t. date_eq (exit_date t) day) (filter (\<lambda>t. exit_date t \<noteq> None) ts)
     = filter (\<lambda>t. exit_date t = Some day) ts"
  by (induction ts) (auto simp: date_eq_def)

lemma filter_closed_open_on:
  "filter (\<lambda>t. entry_date t \<le> day \<and> date_ge (exit_date t) day) (filter (\<lambda>t. exit_date t \<noteq> None) ts)
     = filter (\<lambda>t. entry_date t \<le> day \<and> (case exit_date t of None \<Rightarrow> False | Some e \<Rightarrow> day \<le> e)) ts"
  by (induction ts) (auto simp: date_ge_def)

lemma daily_ret_on_closed:
  fixes ts :: "trade list" and day :: date
  assumes present: "\<forall>t \<in> set ts. exit_date t \<noteq> None \<longrightarrow> ret t \<noteq> None"
    and ordered: "\<forall>t \<in> set ts. \<forall>e. exit_date t = Some e \<longrightarrow> entry_date t \<le> e"
  defines "exits \<equiv> filter (\<lambda>t. exit_date t = Some day) ts"
    and "n \<equiv> length (filter (\<lambda>t. entry_date t \<le> day \<and>
                (case exit_date t of None \<Rightarrow> False | Some e \<Rightarrow> day \<le> e)) ts)"
  shows "daily_ret_on (filter (\<lambda>t. exit_date t \<noteq> None) ts) day =
           (if exits = [] then 0 else (\<Sum>t\<leftarrow>exits. the (ret t) * (1 / real n)))"
    and "exits \<noteq> [] \<Longrightarrow> 1 \<le> n"
proof -
  have sub: "set exits \<subseteq> set (filter (\<lambda>t. entry_date t \<le> day \<and>
                (case exit_date t of None \<Rightarrow> False | Some e \<Rightarrow> day \<le> e)) ts)"
    using ordered by (auto simp: exits_def)
  show n1: "1 \<le> n" if "exits \<noteq> []"
  proof -
    from that obtain t where "t \<in> set exits" by (cases exits) auto
    with sub have "filter (\<lambda>t. entry_date t \<le> day \<and>
                (case exit_date t of None \<Rightarrow> False | Some e \<Rightarrow> day \<le> e)) ts \<noteq> []"
      by (metis empty_iff list.set(1) subsetD)
    then show ?thesis unfolding n_def by (simp add: Suc_le_eq)
  qed
  have pres: "\<forall>t \<in> set exits. ret t \<noteq> None"
    using present by (auto simp: exits_def)
  show "daily_ret_on (filter (\<lambda>t. exit_date t \<noteq> None) ts) day =
           (if exits = [] then 0 else (\<Sum>t\<leftarrow>exits. the (ret t) * (1 / real n)))"
  proof (cases "exits = []")
    case True
    then show ?thesis
      unfolding daily_ret_on_def Let_def filter_closed_date_eq exits_def [symmetric] by simp
  next
    case False
    with n1 have "n \<noteq> 0" by simp
    then have ne: "filter (\<lambda>t. entry_date t \<le> day \<and>
                (case exit_date t of None \<Rightarrow> False | Some e \<Rightarrow> day \<le> e)) ts \<noteq> []"
      unfolding n_def by simp
    show ?thesis
      unfolding daily_ret_on_def Let_def filter_closed_date_eq filter_closed_open_on
        exits_def [symmetric]
      using False ne nansum_present [OF pres] by (simp add: n_def)
  qed
qed

subsection \<open>The sample table, evaluated\<close>

lemma sample_trade_sel [simp]:
  "entry_date (sample_trade e x r q) = e"
  "exit_date (sample_trade e x r q) = x"
  "ret (sample_trade e x r q) = r"
  "rule_quality_score (sample_trade e x r q) = q"
  "avg_ret (sample_trade e x r q) = None"
  by (simp_all add: sample_trade_def)

lemma sample_trade_eq [simp]:
  "(sample_trade e x r q = sample_trade e' x' r' q') = (e = e' \<and> x = x' \<and> r = r' \<and> q = q')"
  by (auto simp: sample_trade_def)

lemma sample_indexed: "indexed_trades sample_table =
     [(0, sample_trade 0 (Some 3) (Some (1 / 10)) (Some 4)),
      (1, sample_trade 0 (Some 3) (Some (1 / 10)) (Some 1)),
      (2, sample_trade 0 (Some 3) (Some (1 / 10)) (Some 3)),
      (3, sample_trade 0 (Some 3) (Some (1 / 10)) (Some 2)),
      (4, sample_trade 1 None None (Some 5))]"
  by (simp add: indexed_trades_def sample_table_def)

lemma sample_days: "sim_days (indexed_trades sample_table) = [0, 1, 2, 3]"
  unfolding sample_indexed
  by (simp add: sim_days_def all_dates_def dropna_def List.map_filter_def bdate_range_def
      is_bday_def upto.simps)

lemma sample_run_day0:
  "run_ok [''rule_quality_score''] (indexed_trades sample_table) [0] =
     \<lparr>open_trades = [(0, sample_trade 0 (Some 3) (Some (1 / 10)) (Some 4)),
                     (2, sample_trade 0 (Some 3) (Some (1 / 10)) (Some 3)),
                     (3, sample_trade 0 (Some 3) (Some (1 / 10)) (Some 2))],
      used_trades = []\<rparr>"
  unfolding sample_indexed
  by (simp add: run_ok_def step_ok_def order_todays_def sort_values_desc_def exit_before_def
      MAX_CONCURRENT_TRADES_def)

lemma sample_run_day1:
  "run_ok [''rule_quality_score''] (indexed_trades sample_table) [0, 1] =
     \<lparr>open_trades = [(0, sample_trade 0 (Some 3) (Some (1 / 10)) (Some 4)),
                     (2, sample_trade 0 (Some 3) (Some (1 / 10)) (Some 3)),
                     (3, sample_trade 0 (Some 3) (Some (1 / 10)) (Some 2))],
      used_trades = []\<rparr>"
  unfolding sample_indexed
  by (simp add: run_ok_def step_ok_def order_todays_def sort_values_desc_def exit_before_def
      MAX_CONCURRENT_TRADES_def)

lemma run_static_portfolio_used:
  "run_static_portfolio dt cols ts = Inr res \<Longrightarrow>
   used_trades_df res =
     used_trades (run_ok cols (indexed_trades ts) (sim_days (indexed_trades ts)))
       @ open_trades (run_ok cols (indexed_trades ts) (sim_days (indexed_trades ts)))"
  by (auto simp: run_static_portfolio_def Let_def dest!: run_days_result
      split: if_splits sum.splits)

lemma open_trade_flushed:
  assumes r: "run_static_portfolio dt cols ts = Inr res"
    and sj: "run_days dt cols (indexed_trades ts) (take j (sim_days (indexed_trades ts))) = Inr sj"
    and op: "row \<in> set (open_trades sj)" and ex: "exit_date (snd row) = None"
  shows "row \<in> set (used_trades_df res)"
proof -
  let ?trades = "indexed_trades ts"
  let ?days = "sim_days ?trades"
  have "run_ok cols ?trades ?days =
      foldl (step_ok cols ?trades) (run_ok cols ?trades (take j ?days)) (drop j ?days)"
    using run_ok_append [of cols ?trades "take j ?days" "drop j ?days"] by simp
  moreover from op have "row \<in> set (open_trades (run_ok cols ?trades (take j ?days)))"
    unfolding run_days_result [OF sj] .
  ultimately have "row \<in> set (open_trades (run_ok cols ?trades ?days))"
    using stays_open_foldl [OF _ ex] by simp
  then show ?thesis
    unfolding run_static_portfolio_used [OF r] by simp
qed

lemma run_static_portfolio_datetime:
  "all_dates (indexed_trades ts) \<noteq> [] \<Longrightarrow> \<exists>res. run_static_portfolio Datetime64 cols ts = Inr res"
  by (simp add: run_static_portfolio_def Let_def run_days_datetime)

lemma sample_open_indexed: "indexed_trades sample_open_table =
     [(0, sample_trade 0 None None (Some 1)),
      (1, sample_trade 1 (Some 2) (Some (1 / 10)) (Some 2))]"
  by (simp add: indexed_trades_def sample_open_table_def)

lemma sample_open_days: "sim_days (indexed_trades sample_open_table) = [0, 1, 2]"
  unfolding sample_open_indexed
  by (simp add: sim_days_def all_dates_def dropna_def List.map_filter_def bdate_range_def
      is_bday_def upto.simps)

lemma sample_open_run0: "run_ok [''rule_quality_score''] (indexed_trades sample_open_table) [0] =
     \<lparr>open_trades = [(0, sample_trade 0 None None (Some 1))], used_trades = []\<rparr>"
  unfolding sample_open_indexed
  by (simp add: run_ok_def step_ok_def order_todays_def sort_values_desc_def exit_before_def
      MAX_CONCURRENT_TRADES_def)

lemma sample_open_run2: "run_ok [''rule_quality_score''] (indexed_trades sample_open_table) [0, 1, 2] =
     \<lparr>open_trades = [(0, sample_trade 0 None None (Some 1)),
                     (1, sample_trade 1 (Some 2) (Some (1 / 10)) (Some 2))],
      used_trades = []\<rparr>"
  unfolding sample_open_indexed
  by (simp add: run_ok_def step_ok_def order_todays_def sort_values_desc_def exit_before_def
      MAX_CONCURRENT_TRADES_def)


lemma bdate_range_1_2: "bdate_range 1 2 = [1, 2]"
  by (simp add: bdate_range_def is_bday_def upto.simps)

lemma sample_open_daily: "daily_returns_from_trades
     [sample_trade 0 None None (Some 1), sample_trade 1 (Some 2) (Some (1 / 10)) (Some 2)]
   = [(1, 0), (2, 1 / 10)]"
proof -
  have c: "filter (\<lambda>t. exit_date t \<noteq> None)
      [sample_trade 0 None None (Some 1), sample_trade 1 (Some 2) (Some (1 / 10)) (Some 2)]
      = [sample_trade 1 (Some 2) (Some (1 / 10)) (Some 2)]" by simp
  have d1: "daily_ret_on [sample_trade 1 (Some 2) (Some (1 / 10)) (Some 2)] 1 = 0"
    by (simp add: daily_ret_on_def date_ge_def date_eq_def)
  have d2: "daily_ret_on [sample_trade 1 (Some 2) (Some (1 / 10)) (Some 2)] 2 = 1 / 10"
    by (simp add: daily_ret_on_def date_ge_def date_eq_def nansum_def scale_def)
  show ?thesis
    unfolding daily_returns_from_trades_def Let_def c
    by (simp add: dropna_def List.map_filter_def bdate_range_1_2 d1 d2)
qed


lemma sample_open_result:
  "run_static_portfolio Datetime64 [''rule_quality_score''] sample_open_table =
     Inr \<lparr>equity_curve = [(1, 1), (2, 11 / 10)],
          used_trades_df = [(0, sample_trade 0 None None (Some 1)),
                            (1, sample_trade 1 (Some 2) (Some (1 / 10)) (Some 2))]\<rparr>"
proof -
  have ne: "all_dates (indexed_trades sample_open_table) \<noteq> []"
    unfolding sample_open_indexed by (simp add: all_dates_def dropna_def List.map_filter_def)
  have cp: "cumprod [1, 11 / 10] = [1, 11 / 10]"
    by (simp add: cumprod_def)
  show ?thesis
    unfolding run_static_portfolio_def Let_def sample_open_days run_days_datetime
      sample_open_run2
    using ne by (simp add: sample_open_daily cp)
qed

lemma set_dropna: "set (dropna xs) = {x. Some x \<in> set xs}"
  by (induction xs) (auto simp: dropna_def List.map_filter_def)

lemma map_fst_daily:
  "map fst (daily_returns_from_trades ts) =
     (if filter (\<lambda>t. exit_date t \<noteq> None) ts = [] then []
      else bdate_range (Min (set (map entry_date (filter (\<lambda>t. exit_date t \<noteq> None) ts))))
             (Max (set (dropna (map exit_date (filter (\<lambda>t. exit_date t \<noteq> None) ts))))))"
  by (simp add: daily_returns_from_trades_def Let_def comp_def)

lemma daily_in_set:
  "(day, r) \<in> set (daily_returns_from_trades ts) \<Longrightarrow>
   r = daily_ret_on (filter (\<lambda>t. exit_date t \<noteq> None) ts) day"
  by (auto simp: daily_returns_from_trades_def Let_def split: if_splits)

lemma daily_nil: "daily_returns_from_trades [] = []"
  by (simp add: daily_returns_from_trades_def)

lemma run_static_portfolio_equity:
  "run_static_portfolio dt cols ts = Inr res \<Longrightarrow>
   equity_curve res =
     zip (map fst (daily_returns_from_trades (map snd (used_trades_df res))))
       (cumprod (map (\<lambda>(d, r). 1 + r) (daily_returns_from_trades (map snd (used_trades_df res)))))"
  by (auto simp: run_static_portfolio_def Let_def daily_nil split: if_splits sum.splits)

lemma equity_fst:
  assumes "run_static_portfolio dt cols ts = Inr res"
  shows "map fst (equity_curve res) = map fst (daily_returns_from_trades (map snd (used_trades_df res)))"
  unfolding run_static_portfolio_equity [OF assms]
  by (simp add: cumprod_def length_cumprod_from)

lemma equity_nth:
  assumes "run_static_portfolio dt cols ts = Inr res"
    and "k < length (daily_returns_from_trades (map snd (used_trades_df res)))"
  shows "snd (equity_curve res ! k) =
     prod_list (map (\<lambda>(d, r). 1 + r) (take (Suc k) (daily_returns_from_trades (map snd (used_trades_df res)))))"
  unfolding run_static_portfolio_equity [OF assms(1)]
  using assms(2) by (simp add: cumprod_def length_cumprod_from cumprod_from_nth take_map)

lemma exit_day_in_series:
  assumes t: "t \<in> set ts" and e: "exit_date t = Some e" and b: "is_bday e"
    and le: "entry_date t \<le> e"
  shows "e \<in> fst ` set (daily_returns_from_trades ts)"
proof -
  let ?cl = "filter (\<lambda>t. exit_date t \<noteq> None) ts"
  from t e have tc: "t \<in> set ?cl" by simp
  then have ne: "?cl \<noteq> []" by (metis empty_iff empty_set)
  have "Min (set (map entry_date ?cl)) \<le> entry_date t"
    using tc by (intro Min_le) auto
  with le have lo: "Min (set (map entry_date ?cl)) \<le> e" by simp
  have "e \<in> set (dropna (map exit_date ?cl))"
    using tc e by (auto simp: set_dropna image_iff)
  then have hi: "e \<le> Max (set (dropna (map exit_date ?cl)))"
    by (intro Max_ge) auto
  have "e \<in> set (map fst (daily_returns_from_trades ts))"
    unfolding map_fst_daily using ne lo hi b by (simp add: bdate_range_def)
  then show ?thesis by simp
qed


lemma daily_first_zero:
  assumes ne: "\<exists>t \<in> set ts. exit_date t \<noteq> None"
    and wf: "\<forall>t \<in> set ts. \<forall>e. exit_date t = Some e \<longrightarrow> entry_date t < e \<and> is_bday (entry_date t)"
  shows "\<exists>d rest. daily_returns_from_trades ts = (d, 0) # rest"
proof -
  define cl where "cl = filter (\<lambda>t. exit_date t \<noteq> None) ts"
  define start where "start = Min (set (map entry_date cl))"
  define end' where "end' = Max (set (dropna (map exit_date cl)))"
  from ne have cne: "cl \<noteq> []" unfolding cl_def by (auto simp: filter_empty_conv)
  then have "start \<in> set (map entry_date cl)"
    unfolding start_def by (intro Min_in) auto
  then obtain t where t: "t \<in> set cl" "entry_date t = start" by auto
  from t(1) obtain e where e: "exit_date t = Some e" "t \<in> set ts"
    unfolding cl_def by auto
  with wf t(2) have se: "start < e" and bs: "is_bday start" by auto
  have "Some e \<in> set (map exit_date cl)"
    using t(1) e(1) by (metis image_eqI set_map)
  then have "e \<in> set (dropna (map exit_date cl))"
    by (simp add: set_dropna)
  then have "e \<le> end'" unfolding end'_def by (intro Max_ge) auto
  with se have le: "start \<le> end'" by simp
  have after: "start < x" if "t' \<in> set cl" "exit_date t' = Some x" for t' x
  proof -
    have "start \<le> entry_date t'"
      unfolding start_def using that(1) by (intro Min_le) auto
    moreover from that wf have "entry_date t' < x" unfolding cl_def by auto
    ultimately show ?thesis by simp
  qed
  have "filter (\<lambda>t. date_eq (exit_date t) start) cl = []"
    using after by (auto simp: filter_empty_conv date_eq_def split: option.splits)
  then have z: "daily_ret_on cl start = 0"
    by (simp add: daily_ret_on_def Let_def)
  from le have "[start..end'] = start # [start + 1..end']" by (rule upto_rec1)
  with bs have "bdate_range start end' = start # filter is_bday [start + 1..end']"
    by (simp add: bdate_range_def)
  with cne z show ?thesis
    unfolding daily_returns_from_trades_def Let_def cl_def [symmetric] start_def [symmetric]
      end'_def [symmetric]
    by simp
qed


lemma sample_single_indexed:
  "indexed_trades [sample_trade 0 None None (Some 1)] = [(0, sample_trade 0 None None (Some 1))]"
  by (simp add: indexed_trades_def)

lemma sample_single_days:
  "sim_days [(0, sample_trade 0 None None (Some 1))] = [0]"
  by (simp add: sim_days_def all_dates_def dropna_def List.map_filter_def bdate_range_def
      is_bday_def upto.simps)

lemma sample_single_run:
  "run_days Object [''rule_quality_score''] [(0, sample_trade 0 None None (Some 1))] [0] =
     Inr \<lparr>open_trades = [(0, sample_trade 0 None None (Some 1))], used_trades = []\<rparr>"
  by (simp add: run_days_def day_step_def order_todays_def sort_values_desc_def
      MAX_CONCURRENT_TRADES_def)

lemma sample_all_open_indexed:
  "indexed_trades sample_all_open_table =
     [(0, sample_trade 0 None None (Some 1)), (1, sample_trade 1 None None (Some 2))]"
  by (simp add: indexed_trades_def sample_all_open_table_def)

lemma sample_all_open_days:
  "sim_days [(0, sample_trade 0 None None (Some 1)), (1, sample_trade 1 None None (Some 2))]
     = [0, 1]"
  by (simp add: sim_days_def all_dates_def dropna_def List.map_filter_def bdate_range_def
      is_bday_def upto.simps)

lemma sample_all_open_dates:
  "all_dates [(0::nat, sample_trade 0 None None (Some 1)), (1, sample_trade 1 None None (Some 2))]
     \<noteq> []"
  by (simp add: all_dates_def dropna_def List.map_filter_def)

lemma sample_all_open_object:
  "run_days Object [''rule_quality_score'']
     [(0, sample_trade 0 None None (Some 1)), (1, sample_trade 1 None None (Some 2))] [0, 1]
   = Inl TypeError"
  by (simp add: run_days_def day_step_def order_todays_def sort_values_desc_def date_lt_def
      MAX_CONCURRENT_TRADES_def)

lemma sample_all_open_datetime:
  "run_days Datetime64 [''rule_quality_score'']
     [(0, sample_trade 0 None None (Some 1)), (1, sample_trade 1 None None (Some 2))] [0, 1]
   = Inr \<lparr>open_trades = [(0, sample_trade 0 None None (Some 1)),
                          (1, sample_trade 1 None None (Some 2))],
          used_trades = []\<rparr>"
  by (simp add: run_days_def day_step_def order_todays_def sort_values_desc_def date_lt_def
      MAX_CONCURRENT_TRADES_def)

section \<open>Properties of the sector daily returns\<close>

lemma sector_ret_on_closed:
  fixes ts :: "trade list" and day :: date and sector :: string
  assumes present: "\<forall>t \<in> set ts. exit_date t \<noteq> None \<longrightarrow> ret t \<noteq> None"
    and ordered: "\<forall>t \<in> set ts. \<forall>e. exit_date t = Some e \<longrightarrow> entry_date t \<le> e"
  defines "exits \<equiv> filter (\<lambda>t. group t = sector \<and> exit_date t = Some day) ts"
    and "n \<equiv> length (filter (\<lambda>t. group t = sector \<and> entry_date t \<le> day \<and>
                (case exit_date t of None \<Rightarrow> False | Some e \<Rightarrow> day \<le> e)) ts)"
  shows "sector_ret_on (filter (\<lambda>t. exit_date t \<noteq> None) ts) day sector =
           (if exits = [] then 0 else (\<Sum>t\<leftarrow>exits. the (ret t)) / real n)"
    and "exits \<noteq> [] \<Longrightarrow> 1 \<le> n"
proof -
  let ?cl = "filter (\<lambda>t. exit_date t \<noteq> None) ts"
  let ?day_trades = "filter (\<lambda>t. entry_date t \<le> day \<and> date_ge (exit_date t) day) ?cl"
  let ?sec = "filter (\<lambda>t. group t = sector) ?day_trades"
  have sec: "?sec = filter (\<lambda>t. group t = sector \<and> entry_date t \<le> day \<and>
                (case exit_date t of None \<Rightarrow> False | Some e \<Rightarrow> day \<le> e)) ts"
    by (auto simp: date_ge_def intro!: filter_cong split: option.splits)
  have ex: "filter (\<lambda>t. date_eq (exit_date t) day) ?sec = exits"
    unfolding exits_def using ordered
    by (auto simp: date_ge_def date_eq_def intro!: filter_cong split: option.splits)
  have sub: "set exits \<subseteq> set ?sec"
    unfolding ex [symmetric] by auto
  show n1: "1 \<le> n" if "exits \<noteq> []"
  proof -
    from that obtain t where "t \<in> set exits" by (cases exits) auto
    with sub have "?sec \<noteq> []" by (metis empty_iff empty_set subsetD)
    then show ?thesis unfolding n_def sec [symmetric] by (simp add: Suc_le_eq)
  qed
  have pres: "\<forall>t \<in> set exits. ret t \<noteq> None"
    using present by (auto simp: exits_def)
  show "sector_ret_on ?cl day sector =
           (if exits = [] then 0 else (\<Sum>t\<leftarrow>exits. the (ret t)) / real n)"
  proof (cases "exits = []")
    case True
    then show ?thesis
      unfolding sector_ret_on_def Let_def ex by simp
  next
    case False
    with n1 have "n \<noteq> 0" by simp
    then have sne: "?sec \<noteq> []" unfolding n_def sec [symmetric] by simp
    then have dne: "?day_trades \<noteq> []" by (metis filter.simps(1))
    have "length ?sec = n" unfolding n_def sec [symmetric] ..
    then show ?thesis
      unfolding sector_ret_on_def Let_def ex
      using False sne dne nansum_present [OF pres]
      by (simp add: sum_list_mult_const)
  qed
qed


lemma sector_daily_cells:
  "(day, row) \<in> set (compute_sector_daily_returns ts) \<Longrightarrow>
   row = map (\<lambda>sector. (sector, sector_ret_on (filter (\<lambda>t. exit_date t \<noteq> None) ts) day sector))
           (unique (map group (filter (\<lambda>t. exit_date t \<noteq> None) ts)))"
  by (auto simp: compute_sector_daily_returns_def Let_def split: if_splits)

lemma sector_daily_index:
  "filter (\<lambda>t. exit_date t \<noteq> None) ts \<noteq> [] \<Longrightarrow>
   map fst (compute_sector_daily_returns ts) =
     bdate_range (Min (set (map entry_date (filter (\<lambda>t. exit_date t \<noteq> None) ts))))
       (Max (set (dropna (map exit_date (filter (\<lambda>t. exit_date t \<noteq> None) ts)))))"
  by (simp add: compute_sector_daily_returns_def Let_def comp_def)

lemma sample_sector_trade_sel [simp]:
  "group (sample_sector_trade g e x r) = g"
  "entry_date (sample_sector_trade g e x r) = e"
  "exit_date (sample_sector_trade g e x r) = x"
  "ret (sample_sector_trade g e x r) = r"
  by (simp_all add: sample_sector_trade_def)

lemma bdate_range_0_3: "bdate_range 0 3 = [0, 1, 2, 3]"
  by (simp add: bdate_range_def is_bday_def upto.simps)

lemma sample_sector_daily:
  "compute_sector_daily_returns sample_sector_table =
     [(0, [(''TELECOM'', 0)]), (1, [(''TELECOM'', 0)]),
      (2, [(''TELECOM'', 2 / 100)]), (3, [(''TELECOM'', 1 / 100)])]"
proof -
  have c: "filter (\<lambda>t. exit_date t \<noteq> None) sample_sector_table = sample_sector_table"
    by (simp add: sample_sector_table_def)
  have s: "sector_ret_on sample_sector_table 0 ''TELECOM'' = 0"
      "sector_ret_on sample_sector_table 1 ''TELECOM'' = 0"
      "sector_ret_on sample_sector_table 2 ''TELECOM'' = 2 / 100"
      "sector_ret_on sample_sector_table 3 ''TELECOM'' = 1 / 100"
    by (simp_all add: sector_ret_on_def sample_sector_table_def date_ge_def date_eq_def
        nansum_def scale_def)
  have r: "bdate_range (Min (set (map entry_date sample_sector_table)))
      (Max (set (dropna (map exit_date sample_sector_table)))) = [0, 1, 2, 3]"
    by (simp add: sample_sector_table_def dropna_def List.map_filter_def bdate_range_0_3)
  have u: "unique (map group sample_sector_table) = [''TELECOM'']"
    by (simp add: sample_sector_table_def unique_def)
  have ne: "sample_sector_table \<noteq> []" by (simp add: sample_sector_table_def)
  show ?thesis
    unfolding compute_sector_daily_returns_def Let_def c r u
    using ne by (simp add: s)
qed

section \<open>Properties of rule identity and scoring\<close>

lemma sort_key_fst_perm:
  assumes d: "distinct (map fst d)" and m: "mset d' = mset d"
  shows "sort_key fst d' = sort_key fst d"
proof (rule sort_key_inj_key_eq)
  show "mset d' = mset (sort_key fst d)" using m by simp
  from m have "mset (map fst d') = mset (map fst d)" by (metis mset_map)
  with d have "distinct (map fst d')" by (metis mset_eq_imp_distinct_iff)
  then show "inj_on fst (set d')" by (simp add: distinct_map)
  show "sorted (map fst (sort_key fst d))" by simp
qed

lemma generate_rule_id_perm:
  assumes "distinct (map fst d)" and "mset d' = mset d"
  shows "generate_rule_id sha1_hex enc d' = generate_rule_id sha1_hex enc d"
  unfolding generate_rule_id_def json_dumps_sorted_def sort_key_fst_perm [OF assms] ..

lemma rule_params_distinct: "distinct (map fst (rule_params k))"
  by (cases k) (simp add: rule_params_def)

lemma dropna_simps [simp]:
  "dropna [] = []"
  "dropna (None # xs) = dropna xs"
  "dropna (Some x # xs) = x # dropna xs"
  by (simp_all add: dropna_def List.map_filter_def)

section \<open>Properties of the trade generator\<close>

lemma grid_member:
  assumes "sig \<in> set signals" "elag \<in> set entry_lags" "hold \<in> set holds"
  shows "(sig_lookback sig, sig_group_thresh sig, sig_participation sig, sig_lagger_max_move sig,
          elag, hold) \<in> set (adaptive_rule_grid signals)"
proof -
  let ?u = "(sig_lookback sig, sig_group_thresh sig, sig_participation sig, sig_lagger_max_move sig)"
  let ?F = "\<lambda>(lb, gt, part, lag).
               concat (map (\<lambda>elag. map (\<lambda>hold. (lb, gt, part, lag, elag, hold)) holds)
                         entry_lags)"
  have u: "?u \<in> set (unique_param_sets signals)"
    unfolding unique_param_sets_def set_remdups set_map using assms(1) by (rule rev_image_eqI) simp
  have "(sig_lookback sig, sig_group_thresh sig, sig_participation sig, sig_lagger_max_move sig,
          elag, hold) \<in> set (?F ?u)"
    using assms(2,3) by auto
  with u have "(sig_lookback sig, sig_group_thresh sig, sig_participation sig,
      sig_lagger_max_move sig, elag, hold) \<in> (\<Union>x \<in> set (unique_param_sets signals). set (?F x))"
    by (rule UN_I)
  then show ?thesis
    unfolding adaptive_rule_grid_def by simp
qed

lemma trade_for_match:
  assumes "signal_loc + elag < length idx"
  shows "trade_for idx ticker_series sig signal_loc
           (sig_lookback sig, sig_group_thresh sig, sig_participation sig,
            sig_lagger_max_move sig, elag, hold) =
         [\<lparr>group = sig_group sig,
           ticker = sig_ticker sig,
           direction = sig_direction sig,
           signal_date = sig_signal_date sig,
           entry_date = idx ! (signal_loc + elag),
           exit_date = (if signal_loc + elag + hold < length idx
                        then Some (idx ! (signal_loc + elag + hold)) else None),
           entry_lag = elag,
           hold_days = hold,
           lookback = sig_lookback sig,
           group_thresh = sig_group_thresh sig,
           participation = sig_participation sig,
           lagger_max_move = sig_lagger_max_move sig,
           ret = (if signal_loc + elag + hold < length idx
                  then Some ((ticker_series ! (signal_loc + elag + hold)
                                / ticker_series ! (signal_loc + elag) - 1)
                             * real_of_int (sig_direction sig))
                  else None),
           leaders = join '','' (sig_leaders sig),
           is_open = (\<not> signal_loc + elag + hold < length idx),
           rule_id = None,
           rule_quality_score = None,
           avg_ret = None\<rparr>]"
proof (cases "signal_loc + elag + hold < length idx")
  case True
  with assms show ?thesis by (simp add: trade_for_def Let_def)
next
  case False
  with assms show ?thesis by (simp add: trade_for_def Let_def)
qed

lemma concat_member: "x \<in> set xs \<Longrightarrow> y \<in> set (f x) \<Longrightarrow> y \<in> set (concat (map f xs))"
  by auto

lemma merge_left_keeps:
  assumes "t \<in> set df"
  shows "\<exists>rid rq. t\<lparr>rule_id := rid, rule_quality_score := rq\<rparr> \<in> set (merge_left df scored)"
proof (cases "filter (\<lambda>r. rs_key r = rule_key_of t) scored")
  case Nil
  then have "t\<lparr>rule_id := None, rule_quality_score := None\<rparr>
      \<in> set (case filter (\<lambda>r. rs_key r = rule_key_of t) scored of
                [] \<Rightarrow> [t\<lparr>rule_id := None, rule_quality_score := None\<rparr>]
              | ms \<Rightarrow> map (\<lambda>r. t\<lparr>rule_id := Some (rs_rule_id r),
                                   rule_quality_score := rs_rule_quality_score r\<rparr>) ms)"
    by simp
  with assms have "t\<lparr>rule_id := None, rule_quality_score := None\<rparr> \<in> set (merge_left df scored)"
    unfolding merge_left_def by (intro concat_member [of t])
  then show ?thesis by blast
next
  case (Cons r rs)
  then have "t\<lparr>rule_id := Some (rs_rule_id r), rule_quality_score := rs_rule_quality_score r\<rparr>
      \<in> set (case filter (\<lambda>r. rs_key r = rule_key_of t) scored of
                [] \<Rightarrow> [t\<lparr>rule_id := None, rule_quality_score := None\<rparr>]
              | ms \<Rightarrow> map (\<lambda>r. t\<lparr>rule_id := Some (rs_rule_id r),
                                   rule_quality_score := rs_rule_quality_score r\<rparr>) ms)"
    by simp
  with assms have "t\<lparr>rule_id := Some (rs_rule_id r), rule_quality_score := rs_rule_quality_score r\<rparr>
      \<in> set (merge_left df scored)"
    unfolding merge_left_def by (intro concat_member [of t])
  then show ?thesis by blast
qed

lemma backtest_signals_keeps:
  assumes "sig \<in> set signals" "t \<in> set (trades_of_signal series (adaptive_rule_grid signals) sig)"
  shows "\<exists>rid rq. t\<lparr>rule_id := rid, rule_quality_score := rq\<rparr>
           \<in> set (backtest_signals series signals scored_rules)"
proof -
  define df where "df = concat (map (trades_of_signal series (adaptive_rule_grid signals)) signals)"
  from assms have t: "t \<in> set df" unfolding df_def by auto
  then have ne: "df \<noteq> []" by auto
  from assms(1) have sne: "signals \<noteq> []" by auto
  have same: "t\<lparr>rule_id := rule_id t, rule_quality_score := rule_quality_score t\<rparr> = t" by simp
  show ?thesis
  proof (cases scored_rules)
    case None
    with t ne sne have "t \<in> set (backtest_signals series signals scored_rules)"
      by (simp add: backtest_signals_def df_def [symmetric])
    then have "t\<lparr>rule_id := rule_id t, rule_quality_score := rule_quality_score t\<rparr>
        \<in> set (backtest_signals series signals scored_rules)" by (simp only: same)
    then show ?thesis by blast
  next
    case (Some scored)
    show ?thesis
    proof (cases "scored = []")
      case True
      with Some t ne sne have "t \<in> set (backtest_signals series signals scored_rules)"
        by (simp add: backtest_signals_def df_def [symmetric])
      then have "t\<lparr>rule_id := rule_id t, rule_quality_score := rule_quality_score t\<rparr>
          \<in> set (backtest_signals series signals scored_rules)" by (simp only: same)
      then show ?thesis by blast
    next
      case False
      with Some ne sne have "backtest_signals series signals scored_rules = merge_left df scored"
        by (simp add: backtest_signals_def df_def [symmetric])
      with merge_left_keeps [OF t] show ?thesis by simp
    qed
  qed
qed

section \<open>Properties of the signal detector\<close>

lemma sqrt_floor: "(sqrt v < 1 / 100) = (v < 1 / 10000)"
proof -
  have e: "sqrt (1 / 10000) = 1 / 100"
    by (rule real_sqrt_unique) (simp_all add: power2_eq_square)
  show ?thesis
    by (subst e [symmetric]) (rule real_sqrt_less_iff)
qed

lemma below_floor_iff:
  "below_floor rets = (2 \<le> length rets \<and> series_var (map snd rets) < 1 / 10000)"
proof (cases "length rets < 2")
  case True
  then show ?thesis by (simp add: below_floor_def series_std_def)
next
  case False
  then have "series_std (map snd rets) = Some (sqrt (series_var (map snd rets)))"
    by (simp add: series_std_def)
  then have "below_floor rets = (sqrt (series_var (map snd rets)) < 1 / 100)"
    by (simp only: below_floor_def MIN_WINDOW_STD_def option.case)
  also have "\<dots> = (series_var (map snd rets) < 1 / 10000)" by (rule sqrt_floor)
  finally show ?thesis using False by simp
qed

lemma both_mem [simp]:
  "''both'' \<in> {''up'', ''both''}" "''both'' \<in> {''down'', ''both''}"
  "''both'' \<in> {''up'', ''down'', ''both''}"
  by simp_all

lemma decide_both:
  "decide_direction ''both'' gt p rets =
     (let fu = real (length (filter (\<lambda>(t, r). r \<ge> gt) rets)) / real (length rets);
          fd = real (length (filter (\<lambda>(t, r). r \<le> - gt) rets)) / real (length rets)
      in if fu \<ge> p \<and> fu \<ge> fd then Some (1, map fst (filter (\<lambda>(t, r). r \<ge> gt) rets))
         else if fd \<ge> p \<and> fd > fu then Some (- 1, map fst (filter (\<lambda>(t, r). r \<le> - gt) rets))
         else None)"
  unfolding decide_direction_def frac_up_def frac_down_def movers_up_def movers_down_def
  by (simp only: both_mem if_True)

lemma find_laggers_eq:
  "find_laggers lmm ls rets = filter (\<lambda>(t, r). \<bar>r\<bar> \<le> lmm \<and> t \<notin> set ls) rets"
  by (auto simp: find_laggers_def intro!: filter_cong)

lemma sample_window: "window_returns sample_group 0 1 =
    [(''TMUS'', 6 / 100), (''T'', 5 / 100), (''VZ'', - 4 / 1000)]"
  by (simp add: window_returns_def sample_group_def)

lemma sample_not_flat:
  "\<not> below_floor [(''TMUS'', 6 / 100), (''T'', 5 / 100), (''VZ'', - 4 / 1000)]"
  by (simp add: below_floor_iff series_var_def power2_eq_square)

lemma sample_decide:
  "decide_direction ''both'' (3 / 100) (3 / 5)
     [(''TMUS'', 6 / 100), (''T'', 5 / 100), (''VZ'', - 4 / 1000)] = Some (1, [''TMUS'', ''T''])"
  by (simp add: decide_both)

lemma sample_laggers:
  "find_laggers (1 / 100) [''TMUS'', ''T'']
     [(''TMUS'', 6 / 100), (''T'', 5 / 100), (''VZ'', - 4 / 1000)] = [(''VZ'', - 4 / 1000)]"
  by (simp add: find_laggers_def)


lemma window_signals_both:
  assumes ne: "rets \<noteq> []" and nf: "\<not> below_floor rets"
  shows "\<exists>sigs. window_signals g lb gt p lmm ''both'' ed sd rets = Inr sigs \<and>
            (case decide_direction ''both'' gt p rets of
               None \<Rightarrow> sigs = []
             | Some (dir, ls) \<Rightarrow>
                 (let laggers = filter (\<lambda>(t, r). \<bar>r\<bar> \<le> lmm \<and> t \<notin> set ls) rets
                  in if length ls < 2 \<or> length laggers < 1 then sigs = []
                     else map sig_ticker sigs = map fst laggers \<and>
                          map lagger_ret sigs = map snd laggers \<and>
                          (\<forall>s \<in> set sigs. sig_direction s = dir \<and> sig_leaders s = ls)))"
proof (cases "decide_direction ''both'' gt p rets")
  case None
  with ne nf show ?thesis by (simp add: window_signals_def)
next
  case (Some a)
  obtain dir ls where a: "a = (dir, ls)" by (cases a)
  let ?laggers = "filter (\<lambda>(t, r). \<bar>r\<bar> \<le> lmm \<and> t \<notin> set ls) rets"
  show ?thesis
  proof (cases "length ls < 2 \<or> length ?laggers < 1")
    case True
    with ne nf Some a show ?thesis
      by (auto simp: window_signals_def find_laggers_eq MIN_LEADERS_PER_SIGNAL_def
          MIN_LAGGERS_PER_SIGNAL_def Let_def)
  next
    case False
    with ne nf Some a show ?thesis
      by (auto simp: window_signals_def find_laggers_eq MIN_LEADERS_PER_SIGNAL_def
          MIN_LAGGERS_PER_SIGNAL_def Let_def comp_def split_beta)
  qed
qed


lemma sample_detect:
  "detect_lag_signals_for_group sample_group g 1 (3 / 100) (3 / 5) (1 / 100) ''both'' =
     Inr [\<lparr>sig_group = g, sig_ticker = ''VZ'', sig_direction = 1, sig_lookback = 1,
           sig_group_thresh = 3 / 100, sig_participation = 3 / 5,
           sig_lagger_max_move = 1 / 100, sig_signal_date = 1, sig_start_date = 0,
           sig_leaders = [''TMUS'', ''T''], lagger_ret = - 4 / 1000,
           window_rets = [(''TMUS'', 6 / 100), (''T'', 5 / 100), (''VZ'', - 4 / 1000)]\<rparr>]"
proof -
  have i: "index sample_group = [0, 1]" by (simp add: sample_group_def)
  have r: "[1 ..< length (index sample_group)] = [1]" by (simp add: i)
  have w: "window_signals g 1 (3 / 100) (3 / 5) (1 / 100) ''both'' 1 0
             [(''TMUS'', 6 / 100), (''T'', 5 / 100), (''VZ'', - 4 / 1000)] =
     Inr [\<lparr>sig_group = g, sig_ticker = ''VZ'', sig_direction = 1, sig_lookback = 1,
           sig_group_thresh = 3 / 100, sig_participation = 3 / 5,
           sig_lagger_max_move = 1 / 100, sig_signal_date = 1, sig_start_date = 0,
           sig_leaders = [''TMUS'', ''T''], lagger_ret = - 4 / 1000,
           window_rets = [(''TMUS'', 6 / 100), (''T'', 5 / 100), (''VZ'', - 4 / 1000)]\<rparr>]"
    unfolding window_signals_def
    by (simp only: sample_not_flat sample_decide sample_laggers if_False option.case prod.case
        Let_def MIN_LEADERS_PER_SIGNAL_def MIN_LAGGERS_PER_SIGNAL_def) simp
  show ?thesis
    unfolding detect_lag_signals_for_group_def r
    using w [simplified] sample_window [simplified] by (simp add: i)
qed

section \<open>Claims\<close>

text \<open>
  C8 (investability monotonicity). With the sector metrics held fixed, floors that are
  raised (any one of the six, the others unchanged, or several at once) never enlarge the
  set of sectors marked investable. A sector is investable exactly when it meets all six
  floors, which is exactly when its reason list is empty, and the reason list has one line
  per failed criterion.
\<close>

theorem investability_antitone:
  "(tighter p p' \<longrightarrow> investable_sectors fmt p' metrics \<subseteq> investable_sectors fmt p metrics) \<and>
   (\<forall>x. min_mean p \<le> x \<longrightarrow>
      investable_sectors fmt (p\<lparr>min_mean := x\<rparr>) metrics \<subseteq> investable_sectors fmt p metrics) \<and>
   (\<forall>x. min_win_rate p \<le> x \<longrightarrow>
      investable_sectors fmt (p\<lparr>min_win_rate := x\<rparr>) metrics \<subseteq> investable_sectors fmt p metrics) \<and>
   (\<forall>x. min_sharpe p \<le> x \<longrightarrow>
      investable_sectors fmt (p\<lparr>min_sharpe := x\<rparr>) metrics \<subseteq> investable_sectors fmt p metrics) \<and>
   (\<forall>x. min_sortino p \<le> x \<longrightarrow>
      investable_sectors fmt (p\<lparr>min_sortino := x\<rparr>) metrics \<subseteq> investable_sectors fmt p metrics) \<and>
   (\<forall>x. min_stability p \<le> x \<longrightarrow>
      investable_sectors fmt (p\<lparr>min_stability := x\<rparr>) metrics \<subseteq> investable_sectors fmt p metrics) \<and>
   (\<forall>x. min_max_dd p \<le> x \<longrightarrow>
      investable_sectors fmt (p\<lparr>min_max_dd := x\<rparr>) metrics \<subseteq> investable_sectors fmt p metrics) \<and>
   (\<forall>row. fst (evaluate_sector_weighted_strict fmt p row) =
      (min_mean p \<le> mean row \<and> min_win_rate p \<le> sec_win_rate row \<and>
       min_sharpe p \<le> sharpe row \<and> min_sortino p \<le> sortino row \<and>
       min_stability p \<le> stability row \<and> min_max_dd p \<le> sec_max_dd row)) \<and>
   (\<forall>row. fst (evaluate_sector_weighted_strict fmt p row) =
      (snd (evaluate_sector_weighted_strict fmt p row) = [])) \<and>
   (\<forall>row. length (snd (evaluate_sector_weighted_strict fmt p row)) =
      length (failed_criteria p row))"
proof -
  have sub: "investable_sectors fmt q' metrics \<subseteq> investable_sectors fmt q metrics"
    if "tighter q q'" for q q'
    using that evaluate_antitone [of q q' fmt]
    unfolding investable_sectors_iff by blast
  have empty: "fst (evaluate_sector_weighted_strict fmt p row) =
      (snd (evaluate_sector_weighted_strict fmt p row) = [])" for row
  proof -
    have "(snd (evaluate_sector_weighted_strict fmt p row) = []) =
        (failed_criteria p row = [])"
      using evaluate_reasons_length [of fmt p row] by (metis length_0_conv)
    also have "\<dots> = fst (evaluate_sector_weighted_strict fmt p row)"
      unfolding evaluate_ok_iff failed_criteria_def by (auto simp: not_less)
    finally show ?thesis by simp
  qed
  show ?thesis
    using empty evaluate_ok_iff [of fmt p] evaluate_reasons_length [of fmt p]
    by (intro conjI allI impI sub) (simp_all add: tighter_def)
qed

theorem investability_antitone_witness:
  "tighter
     \<lparr>min_mean = 0, min_win_rate = 1/2, min_sharpe = 0, min_sortino = 0, min_stability = 0,
      min_max_dd = -1/5\<rparr>
     \<lparr>min_mean = 0, min_win_rate = 1/2, min_sharpe = 1, min_sortino = 0, min_stability = 0,
      min_max_dd = -1/5\<rparr> \<and>
   investable_sectors (\<lambda>spec x. spec)
     \<lparr>min_mean = 0, min_win_rate = 1/2, min_sharpe = 1, min_sortino = 0, min_stability = 0,
      min_max_dd = -1/5\<rparr>
     [\<lparr>sec_group = ''TELECOM'', mean = 1/100, sec_win_rate = 3/5, volatility = 1/50,
       sharpe = 1/2, sortino = 1, sec_max_dd = -1/10, stability = 1/100\<rparr>]
   \<subseteq> investable_sectors (\<lambda>spec x. spec)
     \<lparr>min_mean = 0, min_win_rate = 1/2, min_sharpe = 0, min_sortino = 0, min_stability = 0,
      min_max_dd = -1/5\<rparr>
     [\<lparr>sec_group = ''TELECOM'', mean = 1/100, sec_win_rate = 3/5, volatility = 1/50,
       sharpe = 1/2, sortino = 1, sec_max_dd = -1/10, stability = 1/100\<rparr>]"
proof -
  have t: "tighter
     \<lparr>min_mean = 0, min_win_rate = 1/2, min_sharpe = 0, min_sortino = 0, min_stability = 0,
      min_max_dd = -1/5\<rparr>
     \<lparr>min_mean = 0, min_win_rate = 1/2, min_sharpe = 1, min_sortino = 0, min_stability = 0,
      min_max_dd = -1/5\<rparr>"
    by (simp add: tighter_def)
  from t investability_antitone show ?thesis by blast
qed

text \<open>
  C2 (admission cap). In the day loop of the portfolio simulator, after the admission step
  of every simulated business day at most \<open>MAX_CONCURRENT_TRADES = 3\<close> trades are open.
  A trade that is not in \<open>open_trades\<close> after the admission step of its entry day is not in
  \<open>open_trades\<close> after any later day: a refused trade is never opened later. The states
  are those the loop reaches: with a datetime \<open>exit_date\<close> column it reaches one after
  every day.
\<close>

theorem admission_cap:
  "let trades = indexed_trades ts; days = sim_days trades
   in MAX_CONCURRENT_TRADES = 3 \<and>
      (\<forall>k. \<exists>st. run_days Datetime64 cols trades (take k days) = Inr st) \<and>
      (\<forall>k st. run_days dt cols trades (take k days) = Inr st
         \<longrightarrow> length (open_trades st) \<le> 3) \<and>
      (\<forall>j k row sj sk. j < k \<and> k \<le> length days \<and> days ! j = entry_date (snd row) \<and>
           run_days dt cols trades (take (Suc j) days) = Inr sj \<and>
           row \<notin> set (open_trades sj) \<and>
           run_days dt cols trades (take k days) = Inr sk
         \<longrightarrow> row \<notin> set (open_trades sk))"
proof -
  define trades where "trades = indexed_trades ts"
  define days where "days = sim_days trades"
  have dist: "distinct days" by (simp add: days_def sim_days_def distinct_bdate_range)
  have total: "\<exists>st. run_days Datetime64 cols trades (take k days) = Inr st" for k
    by (simp add: run_days_datetime)
  have cap: "length (open_trades st) \<le> 3"
    if r: "run_days dt cols trades (take k days) = Inr st" for k st
    using run_ok_cap [of cols trades "take k days"]
    unfolding run_days_result [OF r, symmetric] by (simp add: MAX_CONCURRENT_TRADES_def)
  have never: "row \<notin> set (open_trades sk)"
    if jk: "j < k" and kl: "k \<le> length days" and dj: "days ! j = entry_date (snd row)"
      and rj: "run_days dt cols trades (take (Suc j) days) = Inr sj"
      and out: "row \<notin> set (open_trades sj)"
      and rk: "run_days dt cols trades (take k days) = Inr sk" for j k row sj sk
  proof -
    from out have "row \<notin> set (open_trades (run_ok cols trades (take (Suc j) days)))"
      unfolding run_days_result [OF rj] .
    from run_ok_never_later [OF dist jk kl dj this] show ?thesis
      unfolding run_days_result [OF rk] .
  qed
  have "MAX_CONCURRENT_TRADES = 3" by (simp add: MAX_CONCURRENT_TRADES_def)
  with total cap never show ?thesis
    unfolding Let_def trades_def [symmetric] days_def [symmetric] by blast
qed

theorem admission_cap_witness:
  "(0::nat) < 2 \<and> 2 \<le> length (sim_days (indexed_trades sample_table)) \<and>
   sim_days (indexed_trades sample_table) ! 0
     = entry_date (snd (1::nat, sample_trade 0 (Some 3) (Some (1 / 10)) (Some 1))) \<and>
   (1, sample_trade 0 (Some 3) (Some (1 / 10)) (Some 1)) \<in> set (indexed_trades sample_table) \<and>
   run_days Datetime64 [''rule_quality_score''] (indexed_trades sample_table)
       (take (Suc 0) (sim_days (indexed_trades sample_table)))
     = Inr \<lparr>open_trades = [(0, sample_trade 0 (Some 3) (Some (1 / 10)) (Some 4)),
                            (2, sample_trade 0 (Some 3) (Some (1 / 10)) (Some 3)),
                            (3, sample_trade 0 (Some 3) (Some (1 / 10)) (Some 2))],
            used_trades = []\<rparr> \<and>
   run_days Datetime64 [''rule_quality_score''] (indexed_trades sample_table)
       (take 2 (sim_days (indexed_trades sample_table)))
     = Inr \<lparr>open_trades = [(0, sample_trade 0 (Some 3) (Some (1 / 10)) (Some 4)),
                            (2, sample_trade 0 (Some 3) (Some (1 / 10)) (Some 3)),
                            (3, sample_trade 0 (Some 3) (Some (1 / 10)) (Some 2))],
            used_trades = []\<rparr> \<and>
   (1, sample_trade 0 (Some 3) (Some (1 / 10)) (Some 1))
     \<notin> set (open_trades
         \<lparr>open_trades = [(0, sample_trade 0 (Some 3) (Some (1 / 10)) (Some 4)),
                         (2, sample_trade 0 (Some 3) (Some (1 / 10)) (Some 3)),
                         (3, sample_trade 0 (Some 3) (Some (1 / 10)) (Some 2))],
          used_trades = []\<rparr>) \<and>
   length (open_trades
         \<lparr>open_trades = [(0, sample_trade 0 (Some 3) (Some (1 / 10)) (Some 4)),
                         (2, sample_trade 0 (Some 3) (Some (1 / 10)) (Some 3)),
                         (3, sample_trade 0 (Some 3) (Some (1 / 10)) (Some 2))],
          used_trades = []\<rparr>) \<le> 3"
proof -
  let ?row = "(1::nat, sample_trade 0 (Some 3) (Some (1 / 10)) (Some 1))"
  let ?days = "sim_days (indexed_trades sample_table)"
  let ?run = "run_days Datetime64 [''rule_quality_score''] (indexed_trades sample_table)"
  let ?st = "\<lparr>open_trades = [(0::nat, sample_trade 0 (Some 3) (Some (1 / 10)) (Some 4)),
                         (2, sample_trade 0 (Some 3) (Some (1 / 10)) (Some 3)),
                         (3, sample_trade 0 (Some 3) (Some (1 / 10)) (Some 2))],
          used_trades = []\<rparr>"
  have t1: "take (Suc 0) ?days = [0]" and t2: "take 2 ?days = [0, 1]"
    by (simp_all add: sample_days)
  have p1: "(0::nat) < 2 \<and> 2 \<le> length ?days \<and> ?days ! 0 = entry_date (snd ?row)"
    by (simp add: sample_days)
  have p2: "?row \<in> set (indexed_trades sample_table)" by (simp add: sample_indexed)
  have r1: "?run (take (Suc 0) ?days) = Inr ?st"
    unfolding t1 run_days_datetime sample_run_day0 ..
  have r2: "?run (take 2 ?days) = Inr ?st"
    unfolding t2 run_days_datetime sample_run_day1 ..
  have out: "?row \<notin> set (open_trades ?st)" by simp
  note inst = admission_cap [of sample_table "[''rule_quality_score'']" Datetime64,
      unfolded Let_def]
  from inst have a: "\<forall>j k row sj sk. j < k \<and> k \<le> length ?days \<and>
           ?days ! j = entry_date (snd row) \<and>
           ?run (take (Suc j) ?days) = Inr sj \<and> row \<notin> set (open_trades sj) \<and>
           ?run (take k ?days) = Inr sk
         \<longrightarrow> row \<notin> set (open_trades sk)"
    by (elim conjE)
  from inst have b: "\<forall>k st. ?run (take k ?days) = Inr st \<longrightarrow> length (open_trades st) \<le> 3"
    by (elim conjE)
  from a [rule_format, of 0 2 ?row ?st ?st] p1 r1 r2 out
  have c1: "?row \<notin> set (open_trades ?st)" by blast
  from b [rule_format, of 2 ?st] r2 have c2: "length (open_trades ?st) \<le> 3" by blast
  from p1 p2 r1 r2 c1 c2 show ?thesis by blast
qed

text \<open>
  C10 (an open trade is never released): the code raises where the claim has the trade stay.
  The release test \<open>tr["exit_date"] < day\<close> is false on NaT and raises on \<open>None\<close>. On the
  table of two open trades entering on days 0 and 1, whose \<open>exit_date\<close> column holds the
  \<open>None\<close> objects the trade generator wrote, the first trade is admitted on day 0, the
  release test of day 1 raises TypeError and the simulator returns nothing: the trade
  neither remains in \<open>open_trades\<close> nor reaches \<open>used_trades\<close>. With the same rows in a
  datetime column both trades stay open through the loop and are flushed after it.
\<close>

theorem open_trade_release_raises:
  "indexed_trades sample_all_open_table =
     [(0, sample_trade 0 None None (Some 1)), (1, sample_trade 1 None None (Some 2))] \<and>
   sim_days (indexed_trades sample_all_open_table) = [0, 1] \<and>
   run_days Object [''rule_quality_score''] (indexed_trades sample_all_open_table) [0] =
     Inr \<lparr>open_trades = [(0, sample_trade 0 None None (Some 1))], used_trades = []\<rparr> \<and>
   exit_date (snd (0::nat, sample_trade 0 None None (Some 1))) = None \<and>
   date_lt Object (exit_date (snd (0::nat, sample_trade 0 None None (Some 1)))) 1
     = Inl TypeError \<and>
   run_days Object [''rule_quality_score''] (indexed_trades sample_all_open_table) [0, 1] =
     Inl TypeError \<and>
   run_static_portfolio Object [''rule_quality_score''] sample_all_open_table = Inl TypeError \<and>
   run_static_portfolio Datetime64 [''rule_quality_score''] sample_all_open_table =
     Inr \<lparr>equity_curve = [],
          used_trades_df = [(0, sample_trade 0 None None (Some 1)),
                            (1, sample_trade 1 None None (Some 2))]\<rparr>"
proof -
  have d: "daily_returns_from_trades
      [sample_trade 0 None None (Some 1), sample_trade 1 None None (Some 2)] = []"
    by (simp add: daily_returns_from_trades_def)
  have r0: "run_days Object [''rule_quality_score'']
      [(0, sample_trade 0 None None (Some 1)), (1, sample_trade 1 None None (Some 2))] [0] =
     Inr \<lparr>open_trades = [(0, sample_trade 0 None None (Some 1))], used_trades = []\<rparr>"
    by (simp add: run_days_def day_step_def order_todays_def sort_values_desc_def
        MAX_CONCURRENT_TRADES_def)
  have lt: "date_lt Object (exit_date (snd (0::nat, sample_trade 0 None None (Some 1)))) 1
      = Inl TypeError"
    by (simp add: date_lt_def)
  have obj: "run_static_portfolio Object [''rule_quality_score''] sample_all_open_table
      = Inl TypeError"
    unfolding run_static_portfolio_def Let_def sample_all_open_indexed sample_all_open_days
      sample_all_open_object
    using sample_all_open_dates by simp
  have dtm: "run_static_portfolio Datetime64 [''rule_quality_score''] sample_all_open_table =
     Inr \<lparr>equity_curve = [],
          used_trades_df = [(0, sample_trade 0 None None (Some 1)),
                            (1, sample_trade 1 None None (Some 2))]\<rparr>"
    unfolding run_static_portfolio_def Let_def sample_all_open_indexed sample_all_open_days
      sample_all_open_datetime
    using sample_all_open_dates by (simp add: d cumprod_def)
  have ex: "exit_date (snd (0::nat, sample_trade 0 None None (Some 1))) = None" by simp
  have days: "sim_days (indexed_trades sample_all_open_table) = [0, 1]"
    unfolding sample_all_open_indexed by (rule sample_all_open_days)
  have r0': "run_days Object [''rule_quality_score''] (indexed_trades sample_all_open_table) [0] =
     Inr \<lparr>open_trades = [(0, sample_trade 0 None None (Some 1))], used_trades = []\<rparr>"
    unfolding sample_all_open_indexed by (rule r0)
  have r1': "run_days Object [''rule_quality_score''] (indexed_trades sample_all_open_table)
      [0, 1] = Inl TypeError"
    unfolding sample_all_open_indexed by (rule sample_all_open_object)
  show ?thesis
    by (intro conjI sample_all_open_indexed days r0' ex lt r1' obj dtm)
qed

text \<open>
  C4 (equity computation). Let the admitted trades be the rows of the returned
  \<open>used_trades\<close> table, each closed one with its \<open>ret\<close> present and its exit not before its
  entry. The equity curve has the dates of the daily return series, and its value at each
  date is the product of \<open>1 + r\<close> over the daily returns up to that date. Every business day
  on which an admitted trade exits is a date of the series. On a date where admitted trades
  exit, the daily return is the sum over the exiting trades of \<open>ret * (1 / n)\<close>, with
  \<open>n \<ge> 1\<close> the number of admitted trades with \<open>entry_date \<le> day \<le> exit_date\<close>; on a date
  with no exit it is 0.
\<close>

theorem equity_attribution:
  assumes run: "run_static_portfolio dt cols ts = Inr res"
    and wf: "\<forall>(i, t) \<in> set (used_trades_df res). \<forall>e. exit_date t = Some e
               \<longrightarrow> ret t \<noteq> None \<and> entry_date t \<le> e"
  shows "let admitted = map snd (used_trades_df res);
             daily = daily_returns_from_trades admitted
         in map fst (equity_curve res) = map fst daily \<and>
            (\<forall>k < length daily.
               snd (equity_curve res ! k) = prod_list (map (\<lambda>(d, r). 1 + r) (take (Suc k) daily))) \<and>
            (\<forall>t \<in> set admitted. \<forall>e. exit_date t = Some e \<and> is_bday e \<longrightarrow> e \<in> fst ` set daily) \<and>
            (\<forall>(day, r) \<in> set daily.
               let exits = filter (\<lambda>t. exit_date t = Some day) admitted;
                   n = length (filter (\<lambda>t. entry_date t \<le> day \<and>
                         (case exit_date t of None \<Rightarrow> False | Some e \<Rightarrow> day \<le> e)) admitted)
               in (exits \<noteq> [] \<longrightarrow> 1 \<le> n \<and> r = (\<Sum>t\<leftarrow>exits. the (ret t) * (1 / real n))) \<and>
                  (exits = [] \<longrightarrow> r = 0))"
proof -
  define admitted where "admitted = map snd (used_trades_df res)"
  define daily where "daily = daily_returns_from_trades admitted"
  have present: "\<forall>t \<in> set admitted. exit_date t \<noteq> None \<longrightarrow> ret t \<noteq> None"
    using wf unfolding admitted_def by fastforce
  have ordered: "\<forall>t \<in> set admitted. \<forall>e. exit_date t = Some e \<longrightarrow> entry_date t \<le> e"
    using wf unfolding admitted_def by fastforce
  have a: "map fst (equity_curve res) = map fst daily"
    unfolding daily_def admitted_def by (rule equity_fst [OF run])
  have b: "snd (equity_curve res ! k) = prod_list (map (\<lambda>(d, r). 1 + r) (take (Suc k) daily))"
    if "k < length daily" for k
    using that unfolding daily_def admitted_def by (rule equity_nth [OF run])
  have c: "e \<in> fst ` set daily" if "t \<in> set admitted" "exit_date t = Some e" "is_bday e" for t e
    unfolding daily_def using that ordered by (intro exit_day_in_series [of t]) auto
  have d: "let exits = filter (\<lambda>t. exit_date t = Some day) admitted;
               n = length (filter (\<lambda>t. entry_date t \<le> day \<and>
                         (case exit_date t of None \<Rightarrow> False | Some e \<Rightarrow> day \<le> e)) admitted)
           in (exits \<noteq> [] \<longrightarrow> 1 \<le> n \<and> r = (\<Sum>t\<leftarrow>exits. the (ret t) * (1 / real n))) \<and>
              (exits = [] \<longrightarrow> r = 0)"
    if "(day, r) \<in> set daily" for day r
  proof -
    from that have r: "r = daily_ret_on (filter (\<lambda>t. exit_date t \<noteq> None) admitted) day"
      unfolding daily_def by (rule daily_in_set)
    show ?thesis
      unfolding Let_def r
      using daily_ret_on_closed [OF present ordered, of day] by simp
  qed
  show ?thesis
    unfolding Let_def admitted_def [symmetric] daily_def [symmetric]
    using a b c d unfolding Let_def by blast
qed


theorem equity_attribution_witness:
  "run_static_portfolio Datetime64 [''rule_quality_score''] sample_open_table =
     Inr \<lparr>equity_curve = [(1, 1), (2, 11 / 10)],
          used_trades_df = [(0, sample_trade 0 None None (Some 1)),
                            (1, sample_trade 1 (Some 2) (Some (1 / 10)) (Some 2))]\<rparr> \<and>
   (let admitted = map snd (used_trades_df \<lparr>equity_curve = [(1, 1), (2, 11 / 10)],
          used_trades_df = [(0, sample_trade 0 None None (Some 1)),
                            (1, sample_trade 1 (Some 2) (Some (1 / 10)) (Some 2))]\<rparr>);
        daily = daily_returns_from_trades admitted
    in map fst (equity_curve \<lparr>equity_curve = [(1, 1), (2, 11 / 10)],
          used_trades_df = [(0, sample_trade 0 None None (Some 1)),
                            (1, sample_trade 1 (Some 2) (Some (1 / 10)) (Some 2))]\<rparr>) = map fst daily \<and>
       (\<forall>k < length daily.
          snd (equity_curve \<lparr>equity_curve = [(1, 1), (2, 11 / 10)],
          used_trades_df = [(0, sample_trade 0 None None (Some 1)),
                            (1, sample_trade 1 (Some 2) (Some (1 / 10)) (Some 2))]\<rparr> ! k)
            = prod_list (map (\<lambda>(d, r). 1 + r) (take (Suc k) daily))) \<and>
       (\<forall>t \<in> set admitted. \<forall>e. exit_date t = Some e \<and> is_bday e \<longrightarrow> e \<in> fst ` set daily) \<and>
       (\<forall>(day, r) \<in> set daily.
          let exits = filter (\<lambda>t. exit_date t = Some day) admitted;
              n = length (filter (\<lambda>t. entry_date t \<le> day \<and>
                    (case exit_date t of None \<Rightarrow> False | Some e \<Rightarrow> day \<le> e)) admitted)
          in (exits \<noteq> [] \<longrightarrow> 1 \<le> n \<and> r = (\<Sum>t\<leftarrow>exits. the (ret t) * (1 / real n))) \<and>
             (exits = [] \<longrightarrow> r = 0)))"
proof -
  let ?res = "\<lparr>equity_curve = [(1, 1), (2, 11 / 10)],
          used_trades_df = [(0, sample_trade 0 None None (Some 1)),
                            (1, sample_trade 1 (Some 2) (Some (1 / 10)) (Some 2))]\<rparr>"
  have h2: "\<forall>(i, t) \<in> set (used_trades_df ?res).
      \<forall>e. exit_date t = Some e \<longrightarrow> ret t \<noteq> None \<and> entry_date t \<le> e"
    by (simp del: not_None_eq)
  show ?thesis
    by (rule conjI [OF sample_open_result equity_attribution [OF sample_open_result h2]])
qed

text \<open>
  C9 (the equity curve starts at 1.0), as amended. When the simulator returns a result whose
  admitted trades include at least one closed trade, and every closed admitted trade exits
  strictly after its entry and enters on a business day, the returned equity curve is
  non-empty, its first value is 1, and its dates are strictly increasing. The claim as
  first stated asks for a non-empty admitted set only: on the table of one open trade the
  admitted set is that trade and the returned curve is empty.
\<close>

theorem equity_curve_starts_at_one:
  assumes run: "run_static_portfolio dt cols ts = Inr res"
    and closed_one: "\<exists>(i, t) \<in> set (used_trades_df res). exit_date t \<noteq> None"
    and wf: "\<forall>(i, t) \<in> set (used_trades_df res). \<forall>e. exit_date t = Some e
               \<longrightarrow> entry_date t < e \<and> is_bday (entry_date t)"
  shows "(\<exists>d rest. equity_curve res = (d, 1) # rest) \<and>
         sorted_wrt (<) (map fst (equity_curve res))"
proof -
  define admitted where "admitted = map snd (used_trades_df res)"
  have ne: "\<exists>t \<in> set admitted. exit_date t \<noteq> None"
  proof -
    from closed_one obtain i t where "(i, t) \<in> set (used_trades_df res)" "exit_date t \<noteq> None"
      by blast
    then have "t \<in> set admitted" unfolding admitted_def by (metis image_eqI set_map snd_conv)
    with \<open>exit_date t \<noteq> None\<close> show ?thesis by blast
  qed
  have wf': "\<forall>t \<in> set admitted. \<forall>e. exit_date t = Some e
      \<longrightarrow> entry_date t < e \<and> is_bday (entry_date t)"
    using wf unfolding admitted_def by fastforce
  from daily_first_zero [OF ne wf'] obtain d rest
    where dr: "daily_returns_from_trades admitted = (d, 0) # rest" by blast
  have "equity_curve res = (d, 1) # zip (map fst rest) (cumprod_from 1 (map (\<lambda>(d, r). 1 + r) rest))"
    unfolding run_static_portfolio_equity [OF run] admitted_def [symmetric] dr
    by (simp add: cumprod_def)
  then have first: "\<exists>d rest. equity_curve res = (d, 1) # rest" by blast
  have "sorted_wrt (<) (map fst (daily_returns_from_trades admitted))"
    unfolding map_fst_daily by (simp add: sorted_bdate_range)
  then have "sorted_wrt (<) (map fst (equity_curve res))"
    unfolding equity_fst [OF run] admitted_def .
  with first show ?thesis by blast
qed

theorem equity_curve_empty_counterexample:
  "run_static_portfolio Object [''rule_quality_score''] [sample_trade 0 None None (Some 1)] =
     Inr \<lparr>equity_curve = [],
          used_trades_df = [(0, sample_trade 0 None None (Some 1))]\<rparr>"
proof -
  have ne: "all_dates [(0::nat, sample_trade 0 None None (Some 1))] \<noteq> []"
    by (simp add: all_dates_def dropna_def List.map_filter_def)
  have d: "daily_returns_from_trades [sample_trade 0 None None (Some 1)] = []"
    by (simp add: daily_returns_from_trades_def)
  show ?thesis
    unfolding run_static_portfolio_def Let_def sample_single_indexed sample_single_days
      sample_single_run
    using ne by (simp add: d cumprod_def)
qed

theorem equity_curve_starts_at_one_witness:
  "run_static_portfolio Datetime64 [''rule_quality_score''] sample_open_table =
     Inr \<lparr>equity_curve = [(1, 1), (2, 11 / 10)],
          used_trades_df = [(0, sample_trade 0 None None (Some 1)),
                            (1, sample_trade 1 (Some 2) (Some (1 / 10)) (Some 2))]\<rparr> \<and>
   (\<exists>(i, t) \<in> set (used_trades_df \<lparr>equity_curve = [(1, 1), (2, 11 / 10)],
          used_trades_df = [(0, sample_trade 0 None None (Some 1)),
                            (1, sample_trade 1 (Some 2) (Some (1 / 10)) (Some 2))]\<rparr>).
      exit_date t \<noteq> None) \<and>
   (\<exists>d rest. equity_curve \<lparr>equity_curve = [(1, 1), (2, 11 / 10)],
          used_trades_df = [(0, sample_trade 0 None None (Some 1)),
                            (1, sample_trade 1 (Some 2) (Some (1 / 10)) (Some 2))]\<rparr>
       = (d, 1) # rest) \<and>
   sorted_wrt (<) (map fst (equity_curve \<lparr>equity_curve = [(1, 1), (2, 11 / 10)],
          used_trades_df = [(0, sample_trade 0 None None (Some 1)),
                            (1, sample_trade 1 (Some 2) (Some (1 / 10)) (Some 2))]\<rparr>))"
proof -
  let ?res = "\<lparr>equity_curve = [(1, 1), (2, 11 / 10)],
          used_trades_df = [(0, sample_trade 0 None None (Some 1)),
                            (1, sample_trade 1 (Some 2) (Some (1 / 10)) (Some 2))]\<rparr>"
  have h2: "\<exists>(i, t) \<in> set (used_trades_df ?res). exit_date t \<noteq> None"
    by (simp del: not_None_eq)
  have h3: "\<forall>(i, t) \<in> set (used_trades_df ?res). \<forall>e. exit_date t = Some e
      \<longrightarrow> entry_date t < e \<and> is_bday (entry_date t)"
    by (simp add: is_bday_def)
  show ?thesis
    by (rule conjI [OF sample_open_result conjI [OF h2
          equity_curve_starts_at_one [OF sample_open_result h2 h3]]])
qed

text \<open>
  C7 (sector daily returns). For trades whose closed rows have \<open>ret\<close> present and exit not
  before entry: the reconstructed table has one row per business day from the first entry to
  the last exit of the closed trades and one column per sector; the cell of a sector on a
  day is the sum of \<open>ret\<close> over the sector's trades exiting exactly that day, divided by the
  number \<open>n \<ge> 1\<close> of the sector's trades open that day
  (\<open>entry_date \<le> day \<le> exit_date\<close>), and 0 when none of the sector's trades exits that
  day. In particular, with two trades open and exactly one exiting with \<open>ret = 0.04\<close>, the
  cell is 0.02.
\<close>

theorem sector_daily_returns:
  assumes wf: "\<forall>t \<in> set trades. \<forall>e. exit_date t = Some e
                 \<longrightarrow> ret t \<noteq> None \<and> entry_date t \<le> e"
  shows "let closed_trades = filter (\<lambda>t. exit_date t \<noteq> None) trades;
             daily = compute_sector_daily_returns trades
         in (closed_trades \<noteq> [] \<longrightarrow>
               map fst daily = bdate_range (Min (set (map entry_date closed_trades)))
                                 (Max (set (dropna (map exit_date closed_trades))))) \<and>
            (\<forall>(day, row) \<in> set daily.
               map fst row = unique (map group closed_trades) \<and>
               (\<forall>(sector, r) \<in> set row.
                  let exits = filter (\<lambda>t. group t = sector \<and> exit_date t = Some day) trades;
                      n = length (filter (\<lambda>t. group t = sector \<and> entry_date t \<le> day \<and>
                            (case exit_date t of None \<Rightarrow> False | Some e \<Rightarrow> day \<le> e)) trades)
                  in (exits \<noteq> [] \<longrightarrow> 1 \<le> n \<and> r = (\<Sum>t\<leftarrow>exits. the (ret t)) / real n) \<and>
                     (exits = [] \<longrightarrow> r = 0) \<and>
                     (\<forall>t. n = 2 \<and> exits = [t] \<and> ret t = Some (4 / 100) \<longrightarrow> r = 2 / 100)))"
proof -
  define cl where "cl = filter (\<lambda>t. exit_date t \<noteq> None) trades"
  define daily where "daily = compute_sector_daily_returns trades"
  have present: "\<forall>t \<in> set trades. exit_date t \<noteq> None \<longrightarrow> ret t \<noteq> None"
    using wf by auto
  have ordered: "\<forall>t \<in> set trades. \<forall>e. exit_date t = Some e \<longrightarrow> entry_date t \<le> e"
    using wf by auto
  have a: "map fst daily = bdate_range (Min (set (map entry_date cl)))
                                 (Max (set (dropna (map exit_date cl))))" if "cl \<noteq> []"
    using that unfolding cl_def daily_def by (rule sector_daily_index)
  have b: "map fst row = unique (map group cl)" if "(day, row) \<in> set daily" for day row
    using sector_daily_cells [OF that [unfolded daily_def]]
    by (simp add: cl_def comp_def)
  have c: "let exits = filter (\<lambda>t. group t = sector \<and> exit_date t = Some day) trades;
               n = length (filter (\<lambda>t. group t = sector \<and> entry_date t \<le> day \<and>
                            (case exit_date t of None \<Rightarrow> False | Some e \<Rightarrow> day \<le> e)) trades)
           in (exits \<noteq> [] \<longrightarrow> 1 \<le> n \<and> r = (\<Sum>t\<leftarrow>exits. the (ret t)) / real n) \<and>
              (exits = [] \<longrightarrow> r = 0) \<and>
              (\<forall>t. n = 2 \<and> exits = [t] \<and> ret t = Some (4 / 100) \<longrightarrow> r = 2 / 100)"
    if "(day, row) \<in> set daily" "(sector, r) \<in> set row" for day row sector r
  proof -
    from sector_daily_cells [OF that(1) [unfolded daily_def]] that(2)
    have r: "r = sector_ret_on (filter (\<lambda>t. exit_date t \<noteq> None) trades) day sector"
      by auto
    show ?thesis
      unfolding Let_def r
      using sector_ret_on_closed [OF present ordered, where day = day and sector = sector]
      by auto
  qed
  show ?thesis
    unfolding Let_def cl_def [symmetric] daily_def [symmetric]
    using a b c unfolding Let_def by blast
qed


theorem sector_daily_returns_witness:
  "compute_sector_daily_returns sample_sector_table =
     [(0, [(''TELECOM'', 0)]), (1, [(''TELECOM'', 0)]),
      (2, [(''TELECOM'', 2 / 100)]), (3, [(''TELECOM'', 1 / 100)])] \<and>
   (let closed_trades = filter (\<lambda>t. exit_date t \<noteq> None) sample_sector_table;
        daily = compute_sector_daily_returns sample_sector_table
    in (closed_trades \<noteq> [] \<longrightarrow>
          map fst daily = bdate_range (Min (set (map entry_date closed_trades)))
                            (Max (set (dropna (map exit_date closed_trades))))) \<and>
       (\<forall>(day, row) \<in> set daily.
          map fst row = unique (map group closed_trades) \<and>
          (\<forall>(sector, r) \<in> set row.
             let exits = filter (\<lambda>t. group t = sector \<and> exit_date t = Some day)
                           sample_sector_table;
                 n = length (filter (\<lambda>t. group t = sector \<and> entry_date t \<le> day \<and>
                       (case exit_date t of None \<Rightarrow> False | Some e \<Rightarrow> day \<le> e))
                       sample_sector_table)
             in (exits \<noteq> [] \<longrightarrow> 1 \<le> n \<and> r = (\<Sum>t\<leftarrow>exits. the (ret t)) / real n) \<and>
                (exits = [] \<longrightarrow> r = 0) \<and>
                (\<forall>t. n = 2 \<and> exits = [t] \<and> ret t = Some (4 / 100) \<longrightarrow> r = 2 / 100))))"
proof -
  have h: "\<forall>t \<in> set sample_sector_table. \<forall>e. exit_date t = Some e
       \<longrightarrow> ret t \<noteq> None \<and> entry_date t \<le> e"
    by (simp add: sample_sector_table_def del: not_None_eq)
  show ?thesis
    by (rule conjI [OF sample_sector_daily sector_daily_returns [OF h]])
qed

text \<open>
  C1 (RuleId determinism). The rule id is a function of the field values only: two
  parameter dictionaries that hold the same value under every key give the same id, in
  whatever order their items were inserted, since the items are serialised in key order;
  in particular every reordering of the seven RuleKey items gives the id of the RuleKey.
\<close>

theorem generate_rule_id_deterministic:
  "(distinct (map fst d) \<and> distinct (map fst d') \<and> map_of d' = map_of d
      \<longrightarrow> generate_rule_id sha1_hex enc d' = generate_rule_id sha1_hex enc d) \<and>
   (mset d = mset (rule_params k)
      \<longrightarrow> generate_rule_id sha1_hex enc d = generate_rule_id sha1_hex enc (rule_params k))"
proof (intro conjI impI)
  assume a: "distinct (map fst d) \<and> distinct (map fst d') \<and> map_of d' = map_of d"
  then have "set d' = set d" using map_of_inject_set [of d' d] by blast
  moreover from a have "distinct d" "distinct d'" by (auto simp: distinct_map)
  ultimately have "mset d' = mset d" by (simp add: set_eq_iff_mset_eq_distinct)
  with a show "generate_rule_id sha1_hex enc d' = generate_rule_id sha1_hex enc d"
    by (intro generate_rule_id_perm) auto
next
  assume "mset d = mset (rule_params k)"
  with rule_params_distinct [of k]
  show "generate_rule_id sha1_hex enc d = generate_rule_id sha1_hex enc (rule_params k)"
    by (rule generate_rule_id_perm)
qed

theorem generate_rule_id_deterministic_witness:
  "distinct (map fst (rule_params (5, 3 / 100, 3 / 5, 1 / 100, 1, 3, ''TELECOM''))) \<and>
   distinct (map fst (rev (rule_params (5, 3 / 100, 3 / 5, 1 / 100, 1, 3, ''TELECOM'')))) \<and>
   map_of (rev (rule_params (5, 3 / 100, 3 / 5, 1 / 100, 1, 3, ''TELECOM'')))
     = map_of (rule_params (5, 3 / 100, 3 / 5, 1 / 100, 1, 3, ''TELECOM'')) \<and>
   mset (rev (rule_params (5, 3 / 100, 3 / 5, 1 / 100, 1, 3, ''TELECOM'')))
     = mset (rule_params (5, 3 / 100, 3 / 5, 1 / 100, 1, 3, ''TELECOM'')) \<and>
   generate_rule_id (\<lambda>s. s) (\<lambda>v. case v of JStr s \<Rightarrow> s | _ \<Rightarrow> ''0'')
       (rev (rule_params (5, 3 / 100, 3 / 5, 1 / 100, 1, 3, ''TELECOM'')))
     = generate_rule_id (\<lambda>s. s) (\<lambda>v. case v of JStr s \<Rightarrow> s | _ \<Rightarrow> ''0'')
         (rule_params (5, 3 / 100, 3 / 5, 1 / 100, 1, 3, ''TELECOM''))"
proof -
  let ?d = "rule_params (5, 3 / 100, 3 / 5, 1 / 100, 1, 3, ''TELECOM'')"
  have h1: "distinct (map fst ?d)" by (rule rule_params_distinct)
  have h2: "distinct (map fst (rev ?d))" using h1 by (simp add: rev_map [symmetric])
  have h3: "map_of (rev ?d) = map_of ?d"
    using map_of_inject_set [OF h2 h1] by simp
  have h4: "mset (rev ?d) = mset ?d" by simp
  from generate_rule_id_deterministic [of ?d "rev ?d"] h1 h2 h3
  have "generate_rule_id (\<lambda>s. s) (\<lambda>v. case v of JStr s \<Rightarrow> s | _ \<Rightarrow> ''0'') (rev ?d)
     = generate_rule_id (\<lambda>s. s) (\<lambda>v. case v of JStr s \<Rightarrow> s | _ \<Rightarrow> ''0'') ?d"
    by blast
  with h1 h2 h3 h4 show ?thesis by blast
qed

text \<open>
  C3 (rows without \<open>ret\<close> in \<open>score_rules\<close>). On a group of two rows, one with
  \<open>ret = 0.1\<close> and one with \<open>ret\<close> missing, \<open>avg_ret_full\<close> and \<open>max_dd\<close> skip the
  missing row, but \<open>n_trades\<close> is 2 and \<open>win_rate\<close> is 1/2: the row without \<open>ret\<close> is
  counted by both.
\<close>

theorem score_rules_counts_open_rows:
  "map (\<lambda>r. (n_trades r, avg_ret_full r, win_rate r, max_dd r))
     (score_rules sha1_hex enc
        [sample_trade 0 (Some 3) (Some (1 / 10)) None, sample_trade 1 None None None])
   = [(2, Some (1 / 10), 1 / 2, Some (1 / 10))]"
proof -
  have k: "rule_key_of (sample_trade e x r q) = (5, 3 / 100, 3 / 5, 1 / 100, 0, 3, ''TELECOM'')"
    for e x r q
    by (simp add: rule_key_of_def sample_trade_def)
  have a: "nanmean [Some (1 / 10), None] = Some (1 / 10)" by (simp add: nanmean_def)
  have b: "nanmin [Some (1 / 10), None] = Some (1 / 10)" by (simp add: nanmin_def)
  have c: "mean_positive [Some (1 / 10), None] = 1 / 2" by (simp add: mean_positive_def)
  show ?thesis
    by (simp add: score_rules_def k a b c Let_def)
qed

text \<open>
  C6 (open trades). For a signal whose ticker and date are in the price table (an index
  without duplicates), and every entry lag and holding period of the grid: when the entry
  index, signal index + entry\_lag, is within the series, \<open>backtest_signals\<close> returns a row
  for that combination, with or without scored rules to merge; the row is never dropped.
  When the exit index, entry index + hold\_days, is past the end of the series, that row has
  \<open>exit_date\<close> and \<open>ret\<close> missing and \<open>is_open = True\<close>; otherwise it has both and is
  not open.
\<close>

theorem open_trade_rows:
  assumes "distinct (index series)"
    and sig: "sig \<in> set signals"
    and col: "map_of (columns series) (sig_ticker sig) = Some ticker_series"
    and loc: "get_loc (index series) (sig_signal_date sig) = Some signal_loc"
    and elag: "elag \<in> set entry_lags" and hold: "hold \<in> set holds"
    and entry: "signal_loc + elag < length (index series)"
  shows "\<exists>row \<in> set (backtest_signals series signals scored_rules).
           group row = sig_group sig \<and> ticker row = sig_ticker sig \<and>
           direction row = sig_direction sig \<and> signal_date row = sig_signal_date sig \<and>
           lookback row = sig_lookback sig \<and> group_thresh row = sig_group_thresh sig \<and>
           participation row = sig_participation sig \<and>
           lagger_max_move row = sig_lagger_max_move sig \<and>
           entry_lag row = elag \<and> hold_days row = hold \<and>
           entry_date row = index series ! (signal_loc + elag) \<and>
           (if signal_loc + elag + hold < length (index series)
            then exit_date row = Some (index series ! (signal_loc + elag + hold)) \<and>
                 ret row \<noteq> None \<and> \<not> is_open row
            else exit_date row = None \<and> ret row = None \<and> is_open row)"
proof -
  let ?p = "(sig_lookback sig, sig_group_thresh sig, sig_participation sig,
            sig_lagger_max_move sig, elag, hold)"
  let ?grid = "adaptive_rule_grid signals"
  obtain t where t: "trade_for (index series) ticker_series sig signal_loc ?p = [t]"
    and f1: "group t = sig_group sig" "ticker t = sig_ticker sig"
      "direction t = sig_direction sig" "signal_date t = sig_signal_date sig"
      "lookback t = sig_lookback sig" "group_thresh t = sig_group_thresh sig"
      "participation t = sig_participation sig" "lagger_max_move t = sig_lagger_max_move sig"
      "entry_lag t = elag" "hold_days t = hold"
      "entry_date t = index series ! (signal_loc + elag)"
    and f2: "if signal_loc + elag + hold < length (index series)
            then exit_date t = Some (index series ! (signal_loc + elag + hold)) \<and>
                 ret t \<noteq> None \<and> \<not> is_open t
            else exit_date t = None \<and> ret t = None \<and> is_open t"
    using trade_for_match [OF entry, of ticker_series sig hold] by simp
  have "t \<in> set (concat (map (trade_for (index series) ticker_series sig signal_loc) ?grid))"
    using grid_member [OF sig elag hold] t by (intro concat_member [of ?p]) simp_all
  then have "t \<in> set (trades_of_signal series ?grid sig)"
    by (simp add: trades_of_signal_def col loc)
  from backtest_signals_keeps [OF sig this] obtain rid rq
    where "t\<lparr>rule_id := rid, rule_quality_score := rq\<rparr>
             \<in> set (backtest_signals series signals scored_rules)" by blast
  then show ?thesis
    using f1 f2 by (intro bexI [of _ "t\<lparr>rule_id := rid, rule_quality_score := rq\<rparr>"]) simp_all
qed


theorem open_trade_rows_witness:
  "distinct (index sample_frame) \<and> sample_signal \<in> set [sample_signal] \<and>
   map_of (columns sample_frame) (sig_ticker sample_signal) = Some [100, 101, 102] \<and>
   get_loc (index sample_frame) (sig_signal_date sample_signal) = Some 2 \<and>
   0 \<in> set entry_lags \<and> 5 \<in> set holds \<and> 2 + 0 < length (index sample_frame) \<and>
   \<not> 2 + 0 + 5 < length (index sample_frame) \<and>
   (\<exists>row \<in> set (backtest_signals sample_frame [sample_signal] None).
      ticker row = sig_ticker sample_signal \<and> signal_date row = sig_signal_date sample_signal \<and>
      entry_lag row = 0 \<and> hold_days row = 5 \<and>
      entry_date row = index sample_frame ! (2 + 0) \<and>
      exit_date row = None \<and> ret row = None \<and> is_open row)"
proof -
  have h1: "distinct (index sample_frame)" by (simp add: sample_frame_def)
  have h2: "sample_signal \<in> set [sample_signal]" by simp
  have h3: "map_of (columns sample_frame) (sig_ticker sample_signal) = Some [100, 101, 102]"
    by (simp add: sample_frame_def sample_signal_def)
  have h4: "get_loc (index sample_frame) (sig_signal_date sample_signal) = Some 2"
    by (simp add: sample_frame_def sample_signal_def)
  have h5: "0 \<in> set entry_lags" by (simp add: entry_lags_def)
  have h6: "5 \<in> set holds" by (simp add: holds_def)
  have h7: "2 + 0 < length (index sample_frame)" by (simp add: sample_frame_def)
  have h8: "\<not> 2 + 0 + 5 < length (index sample_frame)" by (simp add: sample_frame_def)
  from open_trade_rows [OF h1 h2 h3 h4 h5 h6 h7, of None]
  obtain row where "row \<in> set (backtest_signals sample_frame [sample_signal] None)"
    and "ticker row = sig_ticker sample_signal \<and> signal_date row = sig_signal_date sample_signal \<and>
      entry_lag row = 0 \<and> hold_days row = 5 \<and> entry_date row = index sample_frame ! (2 + 0)"
    and "if 2 + 0 + 5 < length (index sample_frame)
         then exit_date row = Some (index sample_frame ! (2 + 0 + 5)) \<and>
              ret row \<noteq> None \<and> \<not> is_open row
         else exit_date row = None \<and> ret row = None \<and> is_open row"
    by blast
  with h8 have "\<exists>row \<in> set (backtest_signals sample_frame [sample_signal] None).
      ticker row = sig_ticker sample_signal \<and> signal_date row = sig_signal_date sample_signal \<and>
      entry_lag row = 0 \<and> hold_days row = 5 \<and>
      entry_date row = index sample_frame ! (2 + 0) \<and>
      exit_date row = None \<and> ret row = None \<and> is_open row"
    by (intro bexI [of _ row]) (simp_all only: if_False simp_thms)
  with h1 h2 h3 h4 h5 h6 h7 h8 show ?thesis by blast
qed

text \<open>
  C5 (decision rule and fan-out of the signal detector). For a window with at least one
  ticker whose cross-sectional standard deviation passes the noise floor, scanned in
  direction \<open>"both"\<close>: direction up, with the up-movers as leaders, is chosen exactly when
  the up-fraction is at least \<open>participation\<close> and at least the down-fraction; direction
  down, with the down-movers as leaders, exactly when the down-fraction is at least
  \<open>participation\<close> and strictly greater than the up-fraction; otherwise there is no signal.
  The window emits nothing with fewer than 2 leaders or no lagger (a ticker with
  \<open>|return| \<le> lagger_max_move\<close> that is not a leader), and else one signal per lagger,
  all with the chosen direction and leaders. On three tickers with window returns
  0.06, 0.05 and -0.004, with \<open>group_thresh = 0.03\<close>, \<open>participation = 0.6\<close> and
  \<open>lagger_max_move = 0.01\<close>, the detector returns exactly one signal: direction +1,
  the first two tickers as leaders, the third as the lagger.
\<close>

theorem signal_decision:
  "(rets \<noteq> [] \<and> \<not> below_floor rets \<longrightarrow>
     (let n = real (length rets);
          ups = filter (\<lambda>(t, r). r \<ge> gt) rets;
          downs = filter (\<lambda>(t, r). r \<le> - gt) rets;
          fu = real (length ups) / n;
          fd = real (length downs) / n
      in ((decide_direction ''both'' gt p rets = Some (1, map fst ups)) = (fu \<ge> p \<and> fu \<ge> fd)) \<and>
         ((decide_direction ''both'' gt p rets = Some (- 1, map fst downs))
            = (fd \<ge> p \<and> fd > fu)) \<and>
         ((decide_direction ''both'' gt p rets = None)
            = (\<not> (fu \<ge> p \<and> fu \<ge> fd) \<and> \<not> (fd \<ge> p \<and> fd > fu))) \<and>
         (\<exists>sigs. window_signals g lb gt p lmm ''both'' ed sd rets = Inr sigs \<and>
            (case decide_direction ''both'' gt p rets of
               None \<Rightarrow> sigs = []
             | Some (dir, ls) \<Rightarrow>
                 (let laggers = filter (\<lambda>(t, r). \<bar>r\<bar> \<le> lmm \<and> t \<notin> set ls) rets
                  in if length ls < 2 \<or> length laggers < 1 then sigs = []
                     else map sig_ticker sigs = map fst laggers \<and>
                          map lagger_ret sigs = map snd laggers \<and>
                          (\<forall>s \<in> set sigs. sig_direction s = dir \<and> sig_leaders s = ls)))))) \<and>
   window_returns sample_group 0 1 =
     [(''TMUS'', 6 / 100), (''T'', 5 / 100), (''VZ'', - 4 / 1000)] \<and>
   detect_lag_signals_for_group sample_group g 1 (3 / 100) (3 / 5) (1 / 100) ''both'' =
     Inr [\<lparr>sig_group = g, sig_ticker = ''VZ'', sig_direction = 1, sig_lookback = 1,
           sig_group_thresh = 3 / 100, sig_participation = 3 / 5,
           sig_lagger_max_move = 1 / 100, sig_signal_date = 1, sig_start_date = 0,
           sig_leaders = [''TMUS'', ''T''], lagger_ret = - 4 / 1000,
           window_rets = [(''TMUS'', 6 / 100), (''T'', 5 / 100), (''VZ'', - 4 / 1000)]\<rparr>]"
proof (intro conjI impI)
  assume a: "rets \<noteq> [] \<and> \<not> below_floor rets"
  have d: "(decide_direction ''both'' gt p rets = Some (1, map fst ups)) = (fu \<ge> p \<and> fu \<ge> fd) \<and>
           (decide_direction ''both'' gt p rets = Some (- 1, map fst downs)) = (fd \<ge> p \<and> fd > fu) \<and>
           (decide_direction ''both'' gt p rets = None)
             = (\<not> (fu \<ge> p \<and> fu \<ge> fd) \<and> \<not> (fd \<ge> p \<and> fd > fu))"
    if "ups = filter (\<lambda>(t, r). r \<ge> gt) rets" "downs = filter (\<lambda>(t, r). r \<le> - gt) rets"
      "fu = real (length ups) / real (length rets)" "fd = real (length downs) / real (length rets)"
    for ups downs fu fd
    unfolding decide_both Let_def that [symmetric] by auto
  from a window_signals_both [of rets g lb gt p lmm ed sd] d
  show "let n = real (length rets);
          ups = filter (\<lambda>(t, r). r \<ge> gt) rets;
          downs = filter (\<lambda>(t, r). r \<le> - gt) rets;
          fu = real (length ups) / n;
          fd = real (length downs) / n
      in ((decide_direction ''both'' gt p rets = Some (1, map fst ups)) = (fu \<ge> p \<and> fu \<ge> fd)) \<and>
         ((decide_direction ''both'' gt p rets = Some (- 1, map fst downs))
            = (fd \<ge> p \<and> fd > fu)) \<and>
         ((decide_direction ''both'' gt p rets = None)
            = (\<not> (fu \<ge> p \<and> fu \<ge> fd) \<and> \<not> (fd \<ge> p \<and> fd > fu))) \<and>
         (\<exists>sigs. window_signals g lb gt p lmm ''both'' ed sd rets = Inr sigs \<and>
            (case decide_direction ''both'' gt p rets of
               None \<Rightarrow> sigs = []
             | Some (dir, ls) \<Rightarrow>
                 (let laggers = filter (\<lambda>(t, r). \<bar>r\<bar> \<le> lmm \<and> t \<notin> set ls) rets
                  in if length ls < 2 \<or> length laggers < 1 then sigs = []
                     else map sig_ticker sigs = map fst laggers \<and>
                          map lagger_ret sigs = map snd laggers \<and>
                          (\<forall>s \<in> set sigs. sig_direction s = dir \<and> sig_leaders s = ls))))"
    unfolding Let_def by blast
qed (rule sample_window, rule sample_detect)


theorem signal_decision_witness:
  "[(''TMUS'', 6 / 100 :: real), (''T'', 5 / 100), (''VZ'', - 4 / 1000)] \<noteq> [] \<and>
   \<not> below_floor [(''TMUS'', 6 / 100), (''T'', 5 / 100), (''VZ'', - 4 / 1000)] \<and>
   decide_direction ''both'' (3 / 100) (3 / 5)
     [(''TMUS'', 6 / 100), (''T'', 5 / 100), (''VZ'', - 4 / 1000)] = Some (1, [''TMUS'', ''T'']) \<and>
   (\<exists>sigs. window_signals ''TELECOM'' 1 (3 / 100) (3 / 5) (1 / 100) ''both'' 1 0
              [(''TMUS'', 6 / 100), (''T'', 5 / 100), (''VZ'', - 4 / 1000)] = Inr sigs \<and>
           map sig_ticker sigs = [''VZ''] \<and> map lagger_ret sigs = [- 4 / 1000] \<and>
           (\<forall>s \<in> set sigs. sig_direction s = 1 \<and> sig_leaders s = [''TMUS'', ''T'']))"
proof -
  let ?rets = "[(''TMUS'', 6 / 100 :: real), (''T'', 5 / 100), (''VZ'', - 4 / 1000)]"
  have h1: "?rets \<noteq> []" by simp
  have h2: "\<not> below_floor ?rets" by (rule sample_not_flat)
  note inst = signal_decision [where rets = ?rets and gt = "3 / 100" and p = "3 / 5"
      and g = "''TELECOM''" and lb = 1 and lmm = "1 / 100" and ed = 1 and sd = 0,
      THEN conjunct1, rule_format, OF conjI [OF h1 h2], unfolded Let_def]
  from inst have d: "decide_direction ''both'' (3 / 100) (3 / 5) ?rets = Some (1, [''TMUS'', ''T''])"
    by simp
  from inst have "\<exists>sigs. window_signals ''TELECOM'' 1 (3 / 100) (3 / 5) (1 / 100) ''both'' 1 0
              ?rets = Inr sigs \<and>
            (case decide_direction ''both'' (3 / 100) (3 / 5) ?rets of
               None \<Rightarrow> sigs = []
             | Some (dir, ls) \<Rightarrow>
                 if length ls < 2 \<or>
                    length (filter (\<lambda>(t, r). \<bar>r\<bar> \<le> 1 / 100 \<and> t \<notin> set ls) ?rets) < 1
                 then sigs = []
                 else map sig_ticker sigs
                        = map fst (filter (\<lambda>(t, r). \<bar>r\<bar> \<le> 1 / 100 \<and> t \<notin> set ls) ?rets) \<and>
                      map lagger_ret sigs
                        = map snd (filter (\<lambda>(t, r). \<bar>r\<bar> \<le> 1 / 100 \<and> t \<notin> set ls) ?rets) \<and>
                      (\<forall>s \<in> set sigs. sig_direction s = dir \<and> sig_leaders s = ls))"
    by (elim conjE)
  then have e: "\<exists>sigs. window_signals ''TELECOM'' 1 (3 / 100) (3 / 5) (1 / 100) ''both'' 1 0
              ?rets = Inr sigs \<and> map sig_ticker sigs = [''VZ''] \<and>
           map lagger_ret sigs = [- 4 / 1000] \<and>
           (\<forall>s \<in> set sigs. sig_direction s = 1 \<and> sig_leaders s = [''TMUS'', ''T''])"
    unfolding d by simp
  show ?thesis by (rule conjI [OF h1 conjI [OF h2 conjI [OF d e]]])
qed

end
